theory Spec2Isabelle
  imports Complex_Main "HOL-Library.Sublist" "HOL-Library.AList"
begin

section \<open>Python strings\<close>

text \<open>
  A Python \<open>str\<close> is a sequence of Unicode code points.  The text cleaner of
  \<open>document_parser.py\<close> names code points beyond Latin-1 (U+201A and others), so a
  string is modelled as a list of code points, each a natural number.  ASCII literals of
  the source are written with \<open>lit\<close>.
\<close>

type_synonym pystr = "nat list"

definition lit :: "string \<Rightarrow> pystr" where
  "lit s = map of_char s"

text \<open>
  \<open>str.isspace\<close> for one code point; \<open>str.strip()\<close> and the class \<open>\\s\<close> of \<open>re\<close>
  (on \<open>str\<close> patterns) both use this set: U+0009..U+000D, U+001C..U+0020, U+0085,
  U+00A0, U+1680, U+2000..U+200A, U+2028, U+2029, U+202F, U+205F, U+3000.
\<close>

definition isspace :: "nat \<Rightarrow> bool" where
  "isspace c \<longleftrightarrow>
     (9 \<le> c \<and> c \<le> 13) \<or> (28 \<le> c \<and> c \<le> 32) \<or> c = 133 \<or> c = 160 \<or> c = 5760 \<or>
     (8192 \<le> c \<and> c \<le> 8202) \<or> c = 8232 \<or> c = 8233 \<or> c = 8239 \<or> c = 8287 \<or>
     c = 12288"

text \<open>\<open>s.strip()\<close>: leading and trailing whitespace removed.\<close>

definition strip :: "pystr \<Rightarrow> pystr" where
  "strip s = rev (dropWhile isspace (rev (dropWhile isspace s)))"

section \<open>Text cleaning for comparison (\<open>document_parser.py\<close>)\<close>

text \<open>
  The class of the first \<open>re.sub\<close> in \<open>_clean_text_for_comparison\<close> (the
  definition at line 671, which replaces the one at line 653).  The pattern is the
  concatenation of the literals \<open>r'['\<close> and \<open>'\<dots>]'\<close>, that is the class of U+201A,
  U+201B, the ASCII double quote, U+201E, U+201F, the range U+0000..U+001F and U+007F.
\<close>

definition in_quote_class :: "nat \<Rightarrow> bool" where
  "in_quote_class c \<longleftrightarrow>
     c = 8218 \<or> c = 8219 \<or> c = 34 \<or> c = 8222 \<or> c = 8223 \<or> c \<le> 31 \<or> c = 127"

text \<open>
  The dictionary of the replacement lambda.  As the source is written, its first key is
  the triple-quoted string that runs from the first \<open>'''\<close> to the second one, and its
  other key is the ASCII double quote (given twice).
\<close>

definition quote_dict :: "(pystr \<times> pystr) list" where
  "quote_dict =
     [([58, 32, 34, 39, 34, 44, 32, 32, 32, 35, 32, 76, 101, 102, 116, 32, 115, 105, 110,
        103, 108, 101, 32, 113, 117, 111, 116, 101, 10, 32, 32, 32, 32, 32, 32, 32, 32, 32,
        32, 32, 32, 32, 32, 32, 32], [39]),
      ([34], [34]),
      ([34], [34])]"

text \<open>\<open>{\<dots>}.get(m.group(0), ' ')\<close>; a later entry of a dict display wins.\<close>

definition quote_repl :: "pystr \<Rightarrow> pystr" where
  "quote_repl g = (case map_of (rev quote_dict) g of Some r \<Rightarrow> r | None \<Rightarrow> [32])"

text \<open>\<open>re.sub(class, lambda, text)\<close>: every code point of the class is replaced.\<close>

definition sub_quotes :: "pystr \<Rightarrow> pystr" where
  "sub_quotes text = concat (map (\<lambda>c. if in_quote_class c then quote_repl [c] else [c]) text)"

text \<open>\<open>re.sub(r'\\s+', ' ', text)\<close>: every maximal run of whitespace becomes one space.\<close>

function collapse_ws :: "pystr \<Rightarrow> pystr" where
  "collapse_ws [] = []"
| "collapse_ws (c # cs) =
     (if isspace c then 32 # collapse_ws (dropWhile isspace cs) else c # collapse_ws cs)"
  by pat_completeness auto
termination
  by (relation "measure length") (auto simp: less_Suc_eq_le length_dropWhile_le)

text \<open>
  \<open>_clean_text_for_comparison(text)\<close>; \<open>None\<close> is Python's \<open>None\<close>, and \<open>str(text)\<close>
  of a string is the string.  The \<open>except\<close> branch is unreachable on a string: neither
  \<open>re.sub\<close> raises.
\<close>

definition clean_text_for_comparison :: "pystr option \<Rightarrow> pystr" where
  "clean_text_for_comparison text =
     (case text of
        None \<Rightarrow> []
      | Some t \<Rightarrow>
          let text1 = strip t in
          if text1 = [] then []
          else strip (collapse_ws (sub_quotes text1)))"

section \<open>String operations and the regular expressions of \<open>xml_parser.py\<close>\<close>

text \<open>\<open>s.find(p)\<close>: the first index at which \<open>p\<close> occurs in \<open>s\<close>.\<close>

fun find_sub :: "pystr \<Rightarrow> pystr \<Rightarrow> nat option" where
  "find_sub p [] = (if p = [] then Some 0 else None)"
| "find_sub p (c # cs) = (if prefix p (c # cs) then Some 0 else map_option Suc (find_sub p cs))"

text \<open>
  \<open>s.replace(old, new)\<close>: the occurrences of \<open>old\<close> are replaced from left to right
  without overlap; an empty \<open>old\<close> matches before every code point and at the end.
\<close>

function py_replace :: "pystr \<Rightarrow> pystr \<Rightarrow> pystr \<Rightarrow> pystr" where
  "py_replace old new [] = (if old = [] then new else [])"
| "py_replace old new (c # cs) =
     (if old = [] then new @ c # py_replace old new cs
      else if prefix old (c # cs) then new @ py_replace old new (drop (length old) (c # cs))
      else c # py_replace old new cs)"
  by pat_completeness auto
termination
proof (relation "measure (\<lambda>(old, new, s). length s)")
  fix old new :: pystr and c cs
  assume "old \<noteq> []"
  then have "0 < length old" by simp
  then show "((old, new, drop (length old) (c # cs)), old, new, c # cs)
        \<in> measure (\<lambda>(old, new, s). length s)"
    by simp
qed simp_all

text \<open>\<open>str(n)\<close> of a natural number, as an f-string renders it.\<close>

fun str_of_nat :: "nat \<Rightarrow> pystr" where
  "str_of_nat n = (if n < 10 then [48 + n] else str_of_nat (n div 10) @ [48 + n mod 10])"

text \<open>
  \<open>re.search(pattern, s)\<close> for a pattern given by its matcher at one position: the leftmost
  position at which the pattern matches.  The result is the text before the match and what
  the matcher returns.
\<close>

fun re_search :: "(pystr \<Rightarrow> 'a option) \<Rightarrow> pystr \<Rightarrow> (pystr \<times> 'a) option" where
  "re_search m [] = map_option (Pair []) (m [])"
| "re_search m (c # cs) =
     (case m (c # cs) of
        Some r \<Rightarrow> Some ([], r)
      | None \<Rightarrow> map_option (\<lambda>(before, r). (c # before, r)) (re_search m cs))"

text \<open>
  \<open>[^>]*>\<close> at the start of \<open>s\<close>: the class cannot pass a \<open>>\<close>, so the match ends at the
  first \<open>>\<close>.  The result is the matched text and the rest.
\<close>

definition match_to_gt :: "pystr \<Rightarrow> (pystr \<times> pystr) option" where
  "match_to_gt s =
     (case dropWhile (\<lambda>c. c \<noteq> 62) s of
        [] \<Rightarrow> None
      | g # rest \<Rightarrow> Some (takeWhile (\<lambda>c. c \<noteq> 62) s @ [g], rest))"

text \<open>An opening tag \<open>name[^>]*>\<close> at the start of \<open>s\<close>, \<open>name\<close> a literal such as
  \<open><trans-unit\<close>.\<close>

definition match_open :: "pystr \<Rightarrow> pystr \<Rightarrow> (pystr \<times> pystr) option" where
  "match_open name s =
     (if prefix name s
      then map_option (\<lambda>(attrs, rest). (name @ attrs, rest)) (match_to_gt (drop (length name) s))
      else None)"

text \<open>
  An opening tag \<open>name\\s+attr[^>]*>\<close> at the start of \<open>s\<close>, as in
  \<open><context\\s+context-type="x-key"[^>]*>\<close>.  In each use \<open>attr\<close> begins with a code point
  that is not whitespace, so the greedy \<open>\\s+\<close> takes the whole run of whitespace.
\<close>

definition match_open_attr :: "pystr \<Rightarrow> pystr \<Rightarrow> pystr \<Rightarrow> (pystr \<times> pystr) option" where
  "match_open_attr name attr s =
     (if prefix name s
      then
        let r = drop (length name) s;
            ws = takeWhile isspace r;
            r2 = dropWhile isspace r
        in
        if ws \<noteq> [] \<and> prefix attr r2
        then map_option (\<lambda>(attrs, rest). (name @ ws @ attr @ attrs, rest))
               (match_to_gt (drop (length attr) r2))
        else None
      else None)"

text \<open>
  An element \<open>open(.*?)close\<close> with \<open>re.DOTALL\<close> at the start of \<open>s\<close>: after the opening
  tag the lazy \<open>.*?\<close> stops at the first occurrence of the closing literal.  The result is
  the opening tag (group 1 of the target pattern), the inner text, and the rest after the
  closing literal; the whole match is the tag, the inner text and the closing literal.
\<close>

definition match_elem ::
  "(pystr \<Rightarrow> (pystr \<times> pystr) option) \<Rightarrow> pystr \<Rightarrow> pystr \<Rightarrow> (pystr \<times> pystr \<times> pystr) option" where
  "match_elem opn cls s =
     (case opn s of
        None \<Rightarrow> None
      | Some (tag, rest) \<Rightarrow>
          (case find_sub cls rest of
             None \<Rightarrow> None
           | Some k \<Rightarrow> Some (tag, take k rest, drop (k + length cls) rest)))"

text \<open>
  \<open>name\\s+attr="([^"]*)"\<close> at the start of \<open>s\<close>, as in \<open><group\\s+id="([^"]*)"\<close>; the
  result is group 1.  \<open>attr\<close> stands for the literal up to and with the opening quote.
\<close>

definition match_quoted_attr :: "pystr \<Rightarrow> pystr \<Rightarrow> pystr \<Rightarrow> pystr option" where
  "match_quoted_attr name attr s =
     (if prefix name s
      then
        let r = drop (length name) s;
            ws = takeWhile isspace r;
            r2 = dropWhile isspace r
        in
        if ws \<noteq> [] \<and> prefix attr r2
        then
          let v = drop (length attr) r2 in
          if 34 \<in> set v then Some (takeWhile (\<lambda>c. c \<noteq> 34) v) else None
        else None
      else None)"

text \<open>
  The attribute literal and its quoted value at offset \<open>m\<close> of \<open>r\<close>, and the greedy
  \<open>[^>]*\<close> before it: the offsets from the longest run down to 0 are tried in turn.
\<close>

definition quoted_at :: "pystr \<Rightarrow> pystr \<Rightarrow> nat \<Rightarrow> pystr option" where
  "quoted_at attr r m =
     (if prefix attr (drop m r)
      then
        let v = drop (m + length attr) r in
        if 34 \<in> set v then Some (takeWhile (\<lambda>c. c \<noteq> 34) v) else None
      else None)"

fun quoted_back :: "pystr \<Rightarrow> pystr \<Rightarrow> nat \<Rightarrow> pystr option" where
  "quoted_back attr r 0 = quoted_at attr r 0"
| "quoted_back attr r (Suc m) =
     (case quoted_at attr r (Suc m) of Some v \<Rightarrow> Some v | None \<Rightarrow> quoted_back attr r m)"

text \<open>\<open>name[^>]*attr="([^"]*)"\<close> at the start of \<open>s\<close>, as in
  \<open><trans-unit[^>]*key="([^"]*)"\<close>; the result is group 1.\<close>

definition match_tag_attr :: "pystr \<Rightarrow> pystr \<Rightarrow> pystr \<Rightarrow> pystr option" where
  "match_tag_attr name attr s =
     (if prefix name s
      then
        let r = drop (length name) s
        in quoted_back attr r (length (takeWhile (\<lambda>c. c \<noteq> 62) r))
      else None)"

lemma find_sub_decomp:
  "find_sub p s = Some k \<Longrightarrow> s = take k s @ p @ drop (k + length p) s \<and> k + length p \<le> length s"
proof (induction s arbitrary: k)
  case Nil
  then show ?case by (simp split: if_splits)
next
  case (Cons c cs)
  show ?case
  proof (cases "prefix p (c # cs)")
    case True
    with Cons.prems have k: "k = 0" by simp
    from True obtain t where "c # cs = p @ t" by (auto simp: prefix_def)
    with k show ?thesis by simp
  next
    case False
    with Cons.prems obtain j where j: "find_sub p cs = Some j" and k: "k = Suc j" by auto
    from Cons.IH [OF j] k show ?thesis by simp
  qed
qed

lemma match_to_gt_decomp: "match_to_gt s = Some (a, rest) \<Longrightarrow> s = a @ rest \<and> a \<noteq> []"
proof -
  assume m: "match_to_gt s = Some (a, rest)"
  have s: "s = takeWhile (\<lambda>c. c \<noteq> 62) s @ dropWhile (\<lambda>c. c \<noteq> 62) s" by simp
  from m obtain g where d: "dropWhile (\<lambda>c. c \<noteq> 62) s = g # rest"
    and a: "a = takeWhile (\<lambda>c. c \<noteq> 62) s @ [g]"
    by (auto simp: match_to_gt_def split: list.splits)
  from a have ne: "a \<noteq> []" by simp
  from s d have "s = (takeWhile (\<lambda>c. c \<noteq> 62) s @ [g]) @ rest" by simp
  with a have "s = a @ rest" by simp
  with ne show ?thesis by simp
qed

lemma match_elem_shorter:
  assumes "match_elem (match_open name) cls s = Some (tag, inner, rest)"
  shows "length rest < length s"
proof -
  from assms obtain r where o: "match_open name s = Some (tag, r)"
    and f: "find_sub cls r \<noteq> None"
    and rest: "rest = drop (the (find_sub cls r) + length cls) r"
    by (auto simp: match_elem_def split: option.splits)
  from o obtain a where p: "prefix name s" and g: "match_to_gt (drop (length name) s) = Some (a, r)"
    by (auto simp: match_open_def split: if_splits)
  from match_to_gt_decomp [OF g] have e: "drop (length name) s = a @ r" and ne: "a \<noteq> []"
    by simp_all
  from e have "length (drop (length name) s) = length a + length r"
    by (metis length_append)
  with ne have "length r < length (drop (length name) s)" by simp
  then have "length r < length s" by simp
  moreover have "length rest \<le> length r" by (simp add: rest)
  ultimately show ?thesis by simp
qed

lemma re_search_suffix:
  "re_search m s = Some (before, r) \<Longrightarrow> \<exists>t. s = before @ t \<and> m t = Some r"
proof (induction s arbitrary: before)
  case Nil
  then show ?case by auto
next
  case (Cons c cs)
  show ?case
  proof (cases "m (c # cs)")
    case (Some r')
    with Cons.prems show ?thesis by auto
  next
    case None
    with Cons.prems obtain b where b: "re_search m cs = Some (b, r)" and "before = c # b"
      by auto
    with Cons.IH [OF b] show ?thesis by auto
  qed
qed

text \<open>
  \<open>re.findall\<close> of an element pattern \<open>name[^>]*>.*?close\<close> with \<open>re.DOTALL\<close>: the matches
  from left to right, each search starting where the match before it ended.
\<close>

function findall_elem :: "pystr \<Rightarrow> pystr \<Rightarrow> pystr \<Rightarrow> pystr list" where
  "findall_elem name cls s =
     (case re_search (match_elem (match_open name) cls) s of
        None \<Rightarrow> []
      | Some (before, (tag, inner, rest)) \<Rightarrow> (tag @ inner @ cls) # findall_elem name cls rest)"
  by pat_completeness auto
termination
proof (relation "measure (\<lambda>(name, cls, s). length s)")
  show "wf (measure (\<lambda>(name, cls, s). length s))" by simp
next
  fix name cls s :: pystr and x2 :: "pystr \<times> pystr \<times> pystr \<times> pystr" and before y tag z inner rest
  assume a: "re_search (match_elem (match_open name) cls) s = Some x2"
    and b: "(before, y) = x2" and c: "(tag, z) = y" and d: "(inner, rest) = z"
  from a b c d have "re_search (match_elem (match_open name) cls) s = Some (before, tag, inner, rest)"
    by simp
  from re_search_suffix [OF this] obtain t where t: "s = before @ t"
    and m: "match_elem (match_open name) cls t = Some (tag, inner, rest)"
    by auto
  from match_elem_shorter [OF m] t have "length rest < length s" by simp
  then show "((name, cls, rest), (name, cls, s)) \<in> measure (\<lambda>(name, cls, s). length s)" by simp
qed

declare findall_elem.simps [simp del]

section \<open>Records shared by the parser, the patcher and the matcher\<close>

text \<open>
  The dictionary that \<open>XMLParser.parse_xml\<close> appends for each trans-unit.  Every
  record carries every field, so \<open>item.get(k, '')\<close> reads the field.
\<close>

record translation_record =
  index :: nat
  group_id :: pystr
  trans_id :: pystr
  source_text :: pystr
  target_text :: pystr
  original_target_text :: pystr
  key :: pystr
  speaker :: pystr
  speaker_target :: pystr
  speaker_gender :: pystr
  player_class :: pystr
  player_gender :: pystr
  order_value :: int
  note_text :: pystr
  is_menulabel :: bool

text \<open>
  An entry of \<open>processed_data\<close> as the callers build it
  (\<open>main_window.py\<close>, \<open>parse_xml\<close>): a header, \<open>{'is_header': True, \<dots>}\<close>, or a line,
  \<open>{'is_header': False, 'item': item}\<close>.  The field \<open>is_header\<close> is always there
  (\<open>data['is_header']\<close>), the field \<open>item\<close> may be absent (\<open>'item' in data\<close>).
\<close>

record display_entry =
  is_header :: bool
  item :: "translation_record option"

section \<open>Matching table rows with translation records (\<open>document_parser.py\<close>)\<close>

text \<open>
  \<open>str.lower()\<close> on the ASCII letters.  The columns are tested only for the ASCII words
  \<open>source\<close> and \<open>comment\<close>; no code point beyond ASCII lowers to one of their letters,
  so the tests agree with Python's on every string.
\<close>

definition py_lower :: "pystr \<Rightarrow> pystr" where
  "py_lower s = map (\<lambda>c. if 65 \<le> c \<and> c \<le> 90 then c + 32 else c) s"

text \<open>A \<open>pandas\<close> data frame as the matcher reads it: the column labels in order, and
  the rows in order, each row giving \<open>str(row[col])\<close> for a label.\<close>

record dataframe =
  columns :: "pystr list"
  df_rows :: "(pystr \<Rightarrow> pystr) list"

text \<open>An entry of \<open>self.tables\<close>.\<close>

record doc_table =
  table_id :: nat
  table_dataframe :: dataframe
  has_conversation_column :: bool
  conversation_column :: "pystr option"

text \<open>A value of \<open>mxliff_lookup\<close>: \<open>{'key': \<dots>, 'original_text': \<dots>}\<close>.\<close>

record lookup_entry =
  lk_key :: pystr
  lk_original_text :: pystr

text \<open>An entry of \<open>updates\<close>; \<open>u_match_ratio\<close> is \<open>None\<close> when the dictionary has no
  key \<open>'match_ratio'\<close>.  A float is modelled by the rational number it stands for.\<close>

record match_update =
  u_key :: pystr
  u_source_text :: pystr
  u_comment :: pystr
  u_match_type :: pystr
  u_match_ratio :: "rat option"

record match_result =
  matches :: nat
  updates :: "match_update list"

definition get_conversation_tables :: "doc_table list \<Rightarrow> doc_table list" where
  "get_conversation_tables tables = filter has_conversation_column tables"

definition preprocess_text :: "pystr \<Rightarrow> pystr" where
  "preprocess_text text = clean_text_for_comparison (Some (strip text))"

text \<open>One round of the loop that fills \<open>mxliff_lookup\<close>.  A Python dict keeps the
  position of a key that is assigned again, as \<open>AList.update\<close> does.\<close>

definition lookup_step ::
  "(pystr \<times> lookup_entry) list \<Rightarrow> display_entry \<Rightarrow> (pystr \<times> lookup_entry) list" where
  "lookup_step mxliff_lookup data =
     (case item data of
        None \<Rightarrow> mxliff_lookup
      | Some it \<Rightarrow>
          if is_header data then mxliff_lookup
          else
            let source = strip (source_text it) in
            if source = [] then mxliff_lookup
            else
              let clean_source = preprocess_text source in
              if 10 \<le> length clean_source
              then AList.update clean_source
                     \<lparr>lk_key = key it, lk_original_text = source\<rparr> mxliff_lookup
              else mxliff_lookup)"

definition build_lookup :: "display_entry list \<Rightarrow> (pystr \<times> lookup_entry) list" where
  "build_lookup mxliff_data = foldl lookup_step [] mxliff_data"

text \<open>\<open>next((col for col in df.columns if word in str(col).lower()), None)\<close>.\<close>

definition find_column :: "pystr \<Rightarrow> pystr list \<Rightarrow> pystr option" where
  "find_column word cols = List.find (\<lambda>col. sublist word (py_lower col)) cols"

definition source_col_of :: "dataframe \<Rightarrow> pystr option" where
  "source_col_of df = find_column (lit ''source'') (columns df)"

definition comments_col_of :: "dataframe \<Rightarrow> pystr option" where
  "comments_col_of df = find_column (lit ''comment'') (columns df)"

text \<open>\<open>not col\<close> for a column label or \<open>None\<close>.\<close>

definition falsy :: "pystr option \<Rightarrow> bool" where
  "falsy col = (case col of None \<Rightarrow> True | Some c \<Rightarrow> c = [])"

definition MAX_MATCHES :: nat where
  "MAX_MATCHES = 500"

text \<open>The float literal \<open>0.8\<close>: the double nearest to 4/5.\<close>

definition similarity_threshold :: rat where
  "similarity_threshold = 3602879701896397 / 4503599627370496"

text \<open>
  One round of the fuzzy loop over \<open>mxliff_lookup.items()\<close>.  The parameter \<open>ratio\<close>
  is \<open>SequenceMatcher(None, a, b).ratio()\<close> of the standard library.
\<close>

definition fuzzy_step ::
  "(pystr \<Rightarrow> pystr \<Rightarrow> rat) \<Rightarrow> pystr \<Rightarrow> lookup_entry option \<times> rat \<Rightarrow> pystr \<times> lookup_entry
     \<Rightarrow> lookup_entry option \<times> rat" where
  "fuzzy_step ratio clean_source st cand =
     (case st of (best_match, best_ratio) \<Rightarrow>
      case cand of (mxliff_source, mxliff_data) \<Rightarrow>
        if length clean_source < 10 \<or> length mxliff_source < 10 then (best_match, best_ratio)
        else if 5 < \<bar>int (length clean_source) - int (length mxliff_source)\<bar>
        then (best_match, best_ratio)
        else
          let r = ratio clean_source mxliff_source in
          if best_ratio < r then (Some mxliff_data, r) else (best_match, best_ratio))"

definition fuzzy_search ::
  "(pystr \<Rightarrow> pystr \<Rightarrow> rat) \<Rightarrow> pystr \<Rightarrow> (pystr \<times> lookup_entry) list
     \<Rightarrow> lookup_entry option \<times> rat" where
  "fuzzy_search ratio clean_source mxliff_lookup =
     foldl (fuzzy_step ratio clean_source) (None, similarity_threshold) mxliff_lookup"

text \<open>The body of the loop over the rows, after the test of \<open>MAX_MATCHES\<close>.\<close>

definition process_row ::
  "(pystr \<Rightarrow> pystr \<Rightarrow> rat) \<Rightarrow> (pystr \<times> lookup_entry) list \<Rightarrow> pystr \<Rightarrow> pystr
     \<Rightarrow> (pystr \<Rightarrow> pystr) \<Rightarrow> match_update list \<times> nat \<Rightarrow> match_update list \<times> nat" where
  "process_row ratio mxliff_lookup source_col comments_col row st =
     (case st of (upds, match_count) \<Rightarrow>
      let source = strip (row source_col);
          comment_text = strip (row comments_col)
      in
      if source = [] \<or> comment_text = [] then (upds, match_count)
      else
        let clean_source = preprocess_text source in
        case map_of mxliff_lookup clean_source of
          Some match_data \<Rightarrow>
            (upds @ [\<lparr>u_key = lk_key match_data, u_source_text = clean_source,
                       u_comment = comment_text, u_match_type = lit ''exact'',
                       u_match_ratio = None\<rparr>],
             match_count + 1)
        | None \<Rightarrow>
            (case fuzzy_search ratio clean_source mxliff_lookup of
               (None, best_ratio) \<Rightarrow> (upds, match_count)
             | (Some best_match, best_ratio) \<Rightarrow>
                 (upds @ [\<lparr>u_key = lk_key best_match,
                            u_source_text = lk_original_text best_match,
                            u_comment = comment_text, u_match_type = lit ''fuzzy'',
                            u_match_ratio = Some best_ratio\<rparr>],
                  match_count + 1)))"

text \<open>\<open>for _, row in df.iterrows()\<close> with its \<open>break\<close>.\<close>

fun rows_loop ::
  "(pystr \<Rightarrow> pystr \<Rightarrow> rat) \<Rightarrow> (pystr \<times> lookup_entry) list \<Rightarrow> pystr \<Rightarrow> pystr
     \<Rightarrow> (pystr \<Rightarrow> pystr) list \<Rightarrow> match_update list \<times> nat \<Rightarrow> match_update list \<times> nat" where
  "rows_loop ratio mxliff_lookup source_col comments_col [] st = st"
| "rows_loop ratio mxliff_lookup source_col comments_col (row # rest) st =
     (if MAX_MATCHES \<le> snd st then st
      else rows_loop ratio mxliff_lookup source_col comments_col rest
             (process_row ratio mxliff_lookup source_col comments_col row st))"

text \<open>The body of the loop over the conversation tables.\<close>

definition process_table ::
  "(pystr \<Rightarrow> pystr \<Rightarrow> rat) \<Rightarrow> (pystr \<times> lookup_entry) list
     \<Rightarrow> match_update list \<times> nat \<Rightarrow> doc_table \<Rightarrow> match_update list \<times> nat" where
  "process_table ratio mxliff_lookup st tbl =
     (let df = table_dataframe tbl;
          source_col = source_col_of df;
          comments_col = comments_col_of df
      in
      if falsy source_col \<or> falsy comments_col then st
      else
        case (source_col, comments_col) of
          (Some sc, Some cc) \<Rightarrow> rows_loop ratio mxliff_lookup sc cc (df_rows df) st
        | _ \<Rightarrow> st)"

text \<open>
  \<open>DocumentParser.match_content_with_mxliff\<close> (the definition at line 737, which
  replaces the one at line 507); \<open>tables\<close> is \<open>self.tables\<close>.
\<close>

definition match_content_with_mxliff ::
  "(pystr \<Rightarrow> pystr \<Rightarrow> rat) \<Rightarrow> doc_table list \<Rightarrow> display_entry list \<Rightarrow> match_result" where
  "match_content_with_mxliff ratio tables mxliff_data =
     (if mxliff_data = [] \<or> tables = [] then \<lparr>matches = 0, updates = []\<rparr>
      else
        let mxliff_lookup = build_lookup mxliff_data;
            conversation_tables =
              filter (\<lambda>t. 0 < length (df_rows (table_dataframe t))) (get_conversation_tables tables)
        in
        if conversation_tables = [] then \<lparr>matches = 0, updates = []\<rparr>
        else
          case foldl (process_table ratio mxliff_lookup) ([], 0) conversation_tables of
            (upds, match_count) \<Rightarrow> \<lparr>matches = match_count, updates = upds\<rparr>)"

text \<open>
  The choice of the comment column in the words of the specification: the first column
  whose name contains \<open>comment\<close>, a column that also contains \<open>coteam\<close> being
  preferred.
\<close>

definition spec_comments_col :: "pystr list \<Rightarrow> pystr option" where
  "spec_comments_col cols =
     (case List.find (\<lambda>col. sublist (lit ''comment'') (py_lower col)
                            \<and> sublist (lit ''coteam'') (py_lower col)) cols of
        Some c \<Rightarrow> Some c
      | None \<Rightarrow> List.find (\<lambda>col. sublist (lit ''comment'') (py_lower col)) cols)"

section \<open>Patching the XML text (\<open>XMLParser.update_xml_content\<close>)\<close>

datatype py_error = ValueError | KeyError

text \<open>
  What the code takes from the Python runtime: \<open>id(x)\<close> of the \<open>i\<close>-th string of
  \<open>trans_units\<close> and of the \<open>i\<close>-th string of \<open>groups\<close>; the order in which a \<open>set\<close> of
  keys is iterated (given the keys in the order of \<open>edited_translations\<close>); the decimal value
  of a code point of category Nd (\<open>\\d\<close> and \<open>int\<close>); and the limit on the number of digits
  that \<open>int\<close> converts (\<open>sys.get_int_max_str_digits()\<close>, 0 for no limit).
\<close>

record runtime =
  trans_unit_id :: "nat \<Rightarrow> nat"
  group_obj_id :: "nat \<Rightarrow> nat"
  set_iter :: "pystr list \<Rightarrow> pystr list"
  decimal_digit :: "nat \<Rightarrow> nat option"
  int_max_str_digits :: nat

text \<open>A value of \<open>edited_translations\<close>: \<open>{'new': \<dots>, 'original': \<dots>}\<close>.\<close>

record edit =
  new_text :: pystr
  original_text :: pystr

text \<open>
  One round of the loop over \<open>processed_data\<close>.  (\<open>key_to_translation\<close> is only counted
  for the log.)
\<close>

definition collect_edit :: "(pystr \<times> edit) list \<Rightarrow> display_entry \<Rightarrow> (pystr \<times> edit) list" where
  "collect_edit edited data =
     (if is_header data then edited
      else
        case item data of
          None \<Rightarrow> edited
        | Some it \<Rightarrow>
            if key it = [] then edited
            else if target_text it \<noteq> original_target_text it
            then AList.update (key it)
                   \<lparr>new_text = target_text it, original_text = original_target_text it\<rparr> edited
            else edited)"

definition edited_translations :: "display_entry list \<Rightarrow> (pystr \<times> edit) list" where
  "edited_translations processed_data = foldl collect_edit [] processed_data"

definition trans_unit_open :: pystr where
  "trans_unit_open = lit ''<trans-unit''"

definition trans_unit_close :: pystr where
  "trans_unit_close = lit ''</trans-unit>''"

definition group_open :: pystr where
  "group_open = lit ''<group''"

definition group_close :: pystr where
  "group_close = lit ''</group>''"

definition target_close :: pystr where
  "target_close = lit ''</target>''"

text \<open>\<open>re.search(r'<context-group[^>]*>(.*?)</context-group>', s, re.DOTALL)\<close>.\<close>

definition search_context_group :: "pystr \<Rightarrow> (pystr \<times> pystr \<times> pystr \<times> pystr) option" where
  "search_context_group s =
     re_search (match_elem (match_open (lit ''<context-group'')) (lit ''</context-group>'')) s"

text \<open>\<open>re.search(r'<context\\s+context-type="x-key"[^>]*>(.*?)</context>', s, re.DOTALL)\<close>.\<close>

definition search_key :: "pystr \<Rightarrow> (pystr \<times> pystr \<times> pystr \<times> pystr) option" where
  \<open>search_key s =
     re_search (match_elem (match_open_attr (lit ''<context'') (lit ''context-type="x-key"''))
                  (lit ''</context>'')) s\<close>

text \<open>The key of the first context group of \<open>s\<close>, stripped; \<open>None\<close> when there is no
  context group or no key context in it.\<close>

definition own_key :: "pystr \<Rightarrow> pystr option" where
  "own_key s =
     (case search_context_group s of
        None \<Rightarrow> None
      | Some (before, tag, context_content, rest) \<Rightarrow>
          (case search_key context_content of
             None \<Rightarrow> None
           | Some (before', tag', k, rest') \<Rightarrow> Some (strip k)))"

text \<open>\<open>re.search(r'(<target[^>]*>)(.*?)(</target>)', trans_unit, re.DOTALL)\<close>.\<close>

definition search_target :: "pystr \<Rightarrow> (pystr \<times> pystr \<times> pystr \<times> pystr) option" where
  "search_target trans_unit = re_search (match_elem (match_open (lit ''<target'')) target_close) trans_unit"

text \<open>\<open>updated_trans_unit\<close>, when the target pattern matches.\<close>

definition retarget :: "pystr \<Rightarrow> pystr \<Rightarrow> pystr option" where
  "retarget new trans_unit =
     (case search_target trans_unit of
        None \<Rightarrow> None
      | Some (before, tag, inner, rest) \<Rightarrow>
          Some (py_replace (tag @ inner @ target_close) (tag @ new @ target_close) trans_unit))"

definition marker_start :: "nat \<Rightarrow> pystr" where
  "marker_start n = lit ''<!-- XMLUPDATE_START_'' @ str_of_nat n @ lit '' -->''"

definition marker_end :: "nat \<Rightarrow> pystr" where
  "marker_end n = lit ''<!-- XMLUPDATE_END_'' @ str_of_nat n @ lit '' -->''"

definition group_marker_start :: "nat \<Rightarrow> pystr" where
  "group_marker_start n = lit ''<!-- XMLUPDATE_GROUP_START_'' @ str_of_nat n @ lit '' -->''"

definition group_marker_end :: "nat \<Rightarrow> pystr" where
  "group_marker_end n = lit ''<!-- XMLUPDATE_GROUP_END_'' @ str_of_nat n @ lit '' -->''"

text \<open>The two replacements that splice an updated block into \<open>updated_xml\<close>.\<close>

definition splice :: "pystr \<Rightarrow> pystr \<Rightarrow> pystr \<Rightarrow> pystr \<Rightarrow> pystr \<Rightarrow> pystr" where
  "splice m_start m_end block updated_block updated_xml =
     (let marked_original = m_start @ block @ m_end;
          marked_updated = m_start @ updated_block @ m_end
      in py_replace marked_original marked_updated (py_replace block marked_original updated_xml))"

text \<open>
  One round of the first loop over \<open>trans_units\<close>; the state is \<open>updated_xml\<close> and
  \<open>updated_keys\<close>, and \<open>i\<close> is the position of \<open>trans_unit\<close> in the list.
\<close>

definition first_pass_step ::
  "runtime \<Rightarrow> (pystr \<times> edit) list \<Rightarrow> pystr \<times> pystr list \<Rightarrow> nat \<times> pystr \<Rightarrow> pystr \<times> pystr list" where
  "first_pass_step rt edited st itu =
     (case st of (updated_xml, updated_keys) \<Rightarrow>
      case itu of (i, trans_unit) \<Rightarrow>
        (case own_key trans_unit of
           None \<Rightarrow> st
         | Some k \<Rightarrow>
             if k = [] then st
             else
               (case map_of edited k of
                  None \<Rightarrow> st
                | Some e \<Rightarrow>
                    (case retarget (new_text e) trans_unit of
                       None \<Rightarrow> st
                     | Some updated_trans_unit \<Rightarrow>
                         (splice (marker_start (trans_unit_id rt i)) (marker_end (trans_unit_id rt i))
                            trans_unit updated_trans_unit updated_xml,
                          List.insert k updated_keys)))))"

definition first_pass ::
  "runtime \<Rightarrow> (pystr \<times> edit) list \<Rightarrow> pystr \<Rightarrow> pystr \<times> pystr list" where
  "first_pass rt edited xml =
     (let trans_units = findall_elem trans_unit_open trans_unit_close xml
      in foldl (first_pass_step rt edited) (xml, []) (zip [0..<length trans_units] trans_units))"

text \<open>\<open>re.search(r'<trans-unit[^>]*key="([^"]*)"', trans_unit, re.DOTALL)\<close> and the same
  with \<open>id=\<close>: group 1, stripped.\<close>

definition attr_key :: "pystr \<Rightarrow> pystr option" where
  \<open>attr_key trans_unit =
     map_option (\<lambda>(before, v). strip v)
       (re_search (match_tag_attr trans_unit_open (lit ''key="'')) trans_unit)\<close>

definition attr_id :: "pystr \<Rightarrow> pystr option" where
  \<open>attr_id trans_unit =
     map_option (\<lambda>(before, v). strip v)
       (re_search (match_tag_attr trans_unit_open (lit ''id="'')) trans_unit)\<close>

text \<open>
  Pattern 3 of the second approach: when the group has a key context and the trans-unit an
  id, the first missing key, in the order of iteration of the set, that contains the id or
  is contained in it.
\<close>

definition pattern3_key :: "runtime \<Rightarrow> pystr list \<Rightarrow> pystr \<Rightarrow> pystr \<Rightarrow> pystr option" where
  "pattern3_key rt missing_keys grp trans_unit =
     (case own_key grp of
        None \<Rightarrow> None
      | Some base_key \<Rightarrow>
          (case attr_id trans_unit of
             None \<Rightarrow> None
           | Some tid \<Rightarrow>
               List.find (\<lambda>missing_key. sublist tid missing_key \<or> sublist missing_key tid)
                 (set_iter rt missing_keys)))"

text \<open>The key that the second approach finds for a trans-unit; a later pattern is tried
  while the key is \<open>None\<close> or empty.\<close>

definition second_pass_key :: "runtime \<Rightarrow> pystr list \<Rightarrow> pystr \<Rightarrow> pystr \<Rightarrow> pystr option" where
  "second_pass_key rt missing_keys grp trans_unit =
     (let k1 = own_key trans_unit;
          k2 = (if falsy k1 then (case attr_key trans_unit of Some v \<Rightarrow> Some v | None \<Rightarrow> k1) else k1);
          k3 = (if falsy k2
                then (case pattern3_key rt missing_keys grp trans_unit of Some v \<Rightarrow> Some v | None \<Rightarrow> k2)
                else k2)
      in k3)"

text \<open>
  One round of the loop over the trans-units of a group; the state is \<open>updated_group\<close> and
  \<open>group_modified\<close>.  A missing key is a key of \<open>edited_translations\<close>, so the lookup
  \<open>edited_translations[key]\<close> finds it.
\<close>

definition group_unit_step ::
  "runtime \<Rightarrow> (pystr \<times> edit) list \<Rightarrow> pystr list \<Rightarrow> pystr \<Rightarrow> pystr \<times> bool \<Rightarrow> pystr
     \<Rightarrow> pystr \<times> bool" where
  "group_unit_step rt edited missing_keys grp st trans_unit =
     (case st of (updated_group, group_modified) \<Rightarrow>
        (case second_pass_key rt missing_keys grp trans_unit of
           None \<Rightarrow> st
         | Some k \<Rightarrow>
             if k = [] \<or> k \<notin> set missing_keys then st
             else
               (case map_of edited k of
                  None \<Rightarrow> st
                | Some e \<Rightarrow>
                    (case retarget (new_text e) trans_unit of
                       None \<Rightarrow> st
                     | Some updated_trans_unit \<Rightarrow>
                         (py_replace trans_unit updated_trans_unit updated_group, True)))))"

text \<open>One round of the loop over \<open>groups\<close>; the state is \<open>updated_xml\<close>.\<close>

definition second_pass_step ::
  "runtime \<Rightarrow> (pystr \<times> edit) list \<Rightarrow> pystr list \<Rightarrow> pystr \<Rightarrow> nat \<times> pystr \<Rightarrow> pystr" where
  "second_pass_step rt edited missing_keys updated_xml igrp =
     (case igrp of (i, grp) \<Rightarrow>
        (case foldl (group_unit_step rt edited missing_keys grp) (grp, False)
                (findall_elem trans_unit_open trans_unit_close grp) of
           (updated_group, group_modified) \<Rightarrow>
             if group_modified
             then splice (group_marker_start (group_obj_id rt i)) (group_marker_end (group_obj_id rt i))
                    grp updated_group updated_xml
             else updated_xml))"

definition second_pass ::
  "runtime \<Rightarrow> (pystr \<times> edit) list \<Rightarrow> pystr list \<Rightarrow> pystr \<Rightarrow> pystr" where
  "second_pass rt edited missing_keys updated_xml =
     (let groups = findall_elem group_open group_close updated_xml
      in foldl (second_pass_step rt edited missing_keys) updated_xml (zip [0..<length groups] groups))"

text \<open>
  \<open><!-- XMLUPDATE_[^>]*-->\<close> at the start of \<open>s\<close>: the class stops before the first
  \<open>>\<close>, which ends the match when two hyphens stand before it.  The result is the rest
  after the match.
\<close>

definition match_marker :: "pystr \<Rightarrow> pystr option" where
  "match_marker s =
     (if prefix (lit ''<!-- XMLUPDATE_'') s
      then
        let r = drop (length (lit ''<!-- XMLUPDATE_'')) s;
            run = takeWhile (\<lambda>c. c \<noteq> 62) r
        in
        if length run < length r \<and> suffix (lit ''--'') run
        then Some (drop (Suc (length run)) r)
        else None
      else None)"

lemma match_marker_shorter: "match_marker s = Some rest \<Longrightarrow> length rest < length s"
  by (auto simp: match_marker_def Let_def split: if_splits)

text \<open>\<open>re.sub(r'<!-- XMLUPDATE_[^>]*-->', '', updated_xml)\<close>.\<close>

function strip_markers :: "pystr \<Rightarrow> pystr" where
  "strip_markers [] = []"
| "strip_markers (c # cs) =
     (case match_marker (c # cs) of
        Some rest \<Rightarrow> strip_markers rest
      | None \<Rightarrow> c # strip_markers cs)"
  by pat_completeness auto
termination
proof (relation "measure length")
  fix c :: nat and cs rest
  assume "match_marker (c # cs) = Some rest"
  then have "length rest < length (c # cs)" by (rule match_marker_shorter)
  then show "(rest, c # cs) \<in> measure length" by simp
qed simp_all

text \<open>
  \<open>XMLParser.update_xml_content(original_xml_content, processed_data)\<close>.  The logger only
  receives messages and is left out; \<open>updated_keys\<close> after the second approach is used
  for the log alone.
\<close>

definition update_xml_content ::
  "runtime \<Rightarrow> pystr \<Rightarrow> display_entry list \<Rightarrow> py_error + pystr" where
  "update_xml_content rt original_xml_content processed_data =
     (if original_xml_content = [] then Inl ValueError
      else if processed_data = [] then Inl ValueError
      else
        let edited = edited_translations processed_data in
        if edited = [] then Inr original_xml_content
        else
          case first_pass rt edited original_xml_content of
            (updated_xml, updated_keys) \<Rightarrow>
              let missing_keys = filter (\<lambda>k. k \<notin> set updated_keys) (map fst edited);
                  updated_xml2 =
                    (if missing_keys \<noteq> [] then second_pass rt edited missing_keys updated_xml
                     else updated_xml)
              in Inr (strip_markers updated_xml2))"

section \<open>Extracting the records (\<open>XMLParser.parse_xml\<close>)\<close>

text \<open>\<open>re.search(r'<context\\s+context-type="x-key-note"[^>]*>(.*?)</context>', s, re.DOTALL)\<close>.\<close>

definition search_note :: "pystr \<Rightarrow> (pystr \<times> pystr \<times> pystr \<times> pystr) option" where
  \<open>search_note s =
     re_search (match_elem (match_open_attr (lit ''<context'') (lit ''context-type="x-key-note"''))
                  (lit ''</context>'')) s\<close>

text \<open>The note of the first context group of \<open>s\<close>, stripped.\<close>

definition own_note :: "pystr \<Rightarrow> pystr option" where
  "own_note s =
     (case search_context_group s of
        None \<Rightarrow> None
      | Some (before, tag, context_content, rest) \<Rightarrow>
          (case search_note context_content of
             None \<Rightarrow> None
           | Some (before', tag', t, rest') \<Rightarrow> Some (strip t)))"

text \<open>
  The key and the note that the code reads for the group (with empty defaults) and for a
  trans-unit (with the group's key and note as defaults): each of the two is assigned only
  when the context group is found and holds a context of its type.
\<close>

definition context_of :: "pystr \<Rightarrow> pystr \<Rightarrow> pystr \<Rightarrow> pystr \<times> pystr" where
  "context_of default_key default_note s =
     (case search_context_group s of
        None \<Rightarrow> (default_key, default_note)
      | Some (before, tag, context_content, rest) \<Rightarrow>
          ((case search_key context_content of
              None \<Rightarrow> default_key
            | Some (before', tag', k, rest') \<Rightarrow> strip k),
           (case search_note context_content of
              None \<Rightarrow> default_note
            | Some (before', tag', t, rest') \<Rightarrow> strip t)))"

text \<open>
  \<open>label\\s*(C+)\<close> at the start of \<open>s\<close>, \<open>C\<close> a class given by \<open>ok\<close>, as in
  \<open>Speaker:\\s*([^\\n]+)\<close>: the greedy \<open>\\s*\<close> gives whitespace back, one code point at a
  time, until the class matches at least once.  The result is group 1.
\<close>

definition capture_at :: "(nat \<Rightarrow> bool) \<Rightarrow> pystr \<Rightarrow> nat \<Rightarrow> pystr option" where
  "capture_at ok r m =
     (let g = takeWhile ok (drop m r) in if g = [] then None else Some g)"

fun capture_back :: "(nat \<Rightarrow> bool) \<Rightarrow> pystr \<Rightarrow> nat \<Rightarrow> pystr option" where
  "capture_back ok r 0 = capture_at ok r 0"
| "capture_back ok r (Suc m) =
     (case capture_at ok r (Suc m) of Some g \<Rightarrow> Some g | None \<Rightarrow> capture_back ok r m)"

definition match_label :: "pystr \<Rightarrow> (nat \<Rightarrow> bool) \<Rightarrow> pystr \<Rightarrow> pystr option" where
  "match_label label ok s =
     (if prefix label s
      then
        let r = drop (length label) s
        in capture_back ok r (length (takeWhile isspace r))
      else None)"

text \<open>\<open>re.search\<close> of such a pattern, then \<open>.group(1).strip()\<close>; \<open>None\<close> without a
  match.\<close>

definition search_label :: "pystr \<Rightarrow> (nat \<Rightarrow> bool) \<Rightarrow> pystr \<Rightarrow> pystr option" where
  "search_label label ok text =
     map_option (\<lambda>(before, g). strip g) (re_search (match_label label ok) text)"

definition not_newline :: "nat \<Rightarrow> bool" where
  "not_newline c \<longleftrightarrow> c \<noteq> 10"

definition not_comma_newline :: "nat \<Rightarrow> bool" where
  "not_comma_newline c \<longleftrightarrow> c \<noteq> 44 \<and> c \<noteq> 10"

text \<open>
  \<open>Order:\\s*(\\d+)\<close> with \<open>re.IGNORECASE\<close> at the start of \<open>s\<close>; the result is group 1.
  No code point beyond ASCII matches a letter of \<open>Order:\<close> without regard to case.
\<close>

definition match_order :: "runtime \<Rightarrow> pystr \<Rightarrow> pystr option" where
  "match_order rt s =
     (if 6 \<le> length s \<and> py_lower (take 6 s) = lit ''order:''
      then
        let digits = takeWhile (\<lambda>c. decimal_digit rt c \<noteq> None) (dropWhile isspace (drop 6 s))
        in if digits = [] then None else Some digits
      else None)"

text \<open>\<open>int(digits)\<close> for a string of decimal digits: \<open>ValueError\<close> when the string has
  more digits than the limit (if there is a limit).\<close>

definition py_int :: "runtime \<Rightarrow> pystr \<Rightarrow> py_error + int" where
  "py_int rt digits =
     (if int_max_str_digits rt \<noteq> 0 \<and> int_max_str_digits rt < length digits then Inl ValueError
      else Inr (foldl (\<lambda>a c. 10 * a + (case decimal_digit rt c of Some d \<Rightarrow> int d | None \<Rightarrow> 0))
                  0 digits))"

text \<open>\<open>extract_order_value(note_text)\<close> of \<open>utils.py\<close>.\<close>

definition extract_order_value :: "runtime \<Rightarrow> pystr \<Rightarrow> py_error + int" where
  "extract_order_value rt note =
     (if note = [] then Inr 9999
      else
        case re_search (match_order rt) note of
          None \<Rightarrow> Inr 9999
        | Some (before, digits) \<Rightarrow> py_int rt digits)"

text \<open>\<open>m.group(1).strip() if m else ''\<close> for the source and the target element.\<close>

definition inner_text :: "pystr \<Rightarrow> pystr \<Rightarrow> pystr \<Rightarrow> pystr" where
  "inner_text name cls s =
     (case re_search (match_elem (match_open name) cls) s of
        None \<Rightarrow> []
      | Some (before, tag, inner, rest) \<Rightarrow> strip inner)"

text \<open>\<open>m.group(1) if m else dflt\<close> for \<open>name\\s+id="([^"]*)"\<close>.\<close>

definition id_or :: "pystr \<Rightarrow> pystr \<Rightarrow> pystr \<Rightarrow> pystr" where
  \<open>id_or name dflt s =
     (case re_search (match_quoted_attr name (lit ''id="'')) s of
        None \<Rightarrow> dflt
      | Some (before, v) \<Rightarrow> v)\<close>

definition or_empty :: "pystr option \<Rightarrow> pystr" where
  "or_empty m = (case m of None \<Rightarrow> [] | Some v \<Rightarrow> v)"

text \<open>
  The body of the loop over the trans-units of a group: the record for \<open>trans_unit\<close>, the
  \<open>trans_idx\<close>-th of its group, when \<open>processed_data\<close> holds \<open>n\<close> records; or the
  exception that \<open>extract_order_value\<close> raises.
\<close>

definition process_unit ::
  "runtime \<Rightarrow> pystr \<Rightarrow> pystr \<Rightarrow> pystr \<Rightarrow> nat \<Rightarrow> nat \<Rightarrow> pystr \<Rightarrow> py_error + translation_record" where
  "process_unit rt gid group_key group_note_text trans_idx n trans_unit =
     (let source = inner_text (lit ''<source'') (lit ''</source>'') trans_unit;
          target = inner_text (lit ''<target'') (lit ''</target>'') trans_unit;
          tid = id_or trans_unit_open (lit ''trans_'' @ str_of_nat trans_idx) trans_unit;
          unit_key = fst (context_of group_key group_note_text trans_unit);
          unit_note_text = snd (context_of group_key group_note_text trans_unit);
          has_note = (unit_note_text \<noteq> []);
          spk = (if has_note then or_empty (search_label (lit ''Speaker:'') not_newline unit_note_text) else []);
          spk_target0 = (if has_note then or_empty (search_label (lit ''Target:'') not_newline unit_note_text) else []);
          spk_gender0 = (if has_note then or_empty (search_label (lit ''Speaker Gender:'') not_newline unit_note_text) else []);
          p_class = (if has_note then or_empty (search_label (lit ''Class:'') not_newline unit_note_text) else []);
          p_gender = (if has_note then or_empty (search_label (lit ''Player Gender:'') not_newline unit_note_text) else []);
          spk_gender =
            (if has_note \<and> spk_gender0 = []
             then (case search_label (lit ''Gender:'') not_comma_newline unit_note_text of
                     Some g \<Rightarrow> g | None \<Rightarrow> spk_gender0)
             else spk_gender0);
          spk_target =
            (if has_note \<and> spk_target0 = []
             then (case search_label (lit ''speaking to:'') not_comma_newline unit_note_text of
                     Some g \<Rightarrow> g | None \<Rightarrow> spk_target0)
             else spk_target0)
      in
      case (if has_note then extract_order_value rt unit_note_text else Inr 9999) of
        Inl e \<Rightarrow> Inl e
      | Inr ov \<Rightarrow>
          Inr \<lparr>index = n, group_id = gid, trans_id = tid, source_text = source,
               target_text = target, original_target_text = target, key = unit_key,
               speaker = spk, speaker_target = spk_target, speaker_gender = spk_gender,
               player_class = p_class, player_gender = p_gender, order_value = ov,
               note_text = unit_note_text,
               is_menulabel = sublist (lit ''MenuLabel'') unit_key\<rparr>)"

text \<open>
  The loop over the trans-units of a group inside the \<open>try\<close>: the records appended to
  \<open>processed_data\<close> stay when a later trans-unit raises, and the exception ends the loop.
\<close>

fun units_loop ::
  "runtime \<Rightarrow> pystr \<Rightarrow> pystr \<Rightarrow> pystr \<Rightarrow> nat \<Rightarrow> pystr list \<Rightarrow> translation_record list
     \<Rightarrow> translation_record list \<times> py_error option" where
  "units_loop rt gid group_key group_note_text trans_idx [] processed_data = (processed_data, None)"
| "units_loop rt gid group_key group_note_text trans_idx (trans_unit # rest) processed_data =
     (case process_unit rt gid group_key group_note_text trans_idx (length processed_data) trans_unit of
        Inl e \<Rightarrow> (processed_data, Some e)
      | Inr r \<Rightarrow> units_loop rt gid group_key group_note_text (Suc trans_idx) rest (processed_data @ [r]))"

text \<open>The body of the \<open>try\<close> for the group at position \<open>group_idx\<close>, with the exception
  it ends in, if any.\<close>

definition process_group ::
  "runtime \<Rightarrow> nat \<Rightarrow> pystr \<Rightarrow> translation_record list \<Rightarrow> translation_record list \<times> py_error option" where
  "process_group rt group_idx grp processed_data =
     (let gid = id_or group_open (lit ''group_'' @ str_of_nat group_idx) grp;
          group_key = fst (context_of [] [] grp);
          group_note_text = snd (context_of [] [] grp);
          trans_units = findall_elem trans_unit_open trans_unit_close grp
      in units_loop rt gid group_key group_note_text 0 trans_units processed_data)"

text \<open>The loop over the groups: the \<open>except\<close> clause logs the exception and the loop goes
  on with the next group.\<close>

fun groups_loop ::
  "runtime \<Rightarrow> nat \<Rightarrow> pystr list \<Rightarrow> translation_record list \<Rightarrow> translation_record list" where
  "groups_loop rt group_idx [] processed_data = processed_data"
| "groups_loop rt group_idx (grp # rest) processed_data =
     groups_loop rt (Suc group_idx) rest (fst (process_group rt group_idx grp processed_data))"

text \<open>\<open>XMLParser.parse_xml(xml_content)\<close>; the logger is left out.\<close>

definition parse_xml :: "runtime \<Rightarrow> pystr \<Rightarrow> translation_record list" where
  "parse_xml rt xml_content =
     groups_loop rt 0 (findall_elem group_open group_close xml_content) []"

section \<open>The patcher on dictionaries, with its log\<close>




















section \<open>Auxiliary notions for the proofs\<close>

text \<open>A string is whitespace-normal when each whitespace code point in it is a single
  space standing alone.\<close>

fun ws_normal :: "pystr \<Rightarrow> bool" where
  "ws_normal [] = True"
| "ws_normal (c # cs) =
     (if isspace c then c = 32 \<and> (case cs of [] \<Rightarrow> True | d # _ \<Rightarrow> \<not> isspace d) \<and> ws_normal cs
      else ws_normal cs)"

definition well_formed_update :: "match_update \<Rightarrow> bool" where
  "well_formed_update u \<longleftrightarrow>
     (u_match_type u = lit ''exact'' \<and> u_match_ratio u = None) \<or>
     (u_match_type u = lit ''fuzzy'' \<and> u_match_ratio u \<noteq> None)"

definition matcher_inv :: "match_update list \<times> nat \<Rightarrow> bool" where
  "matcher_inv st \<longleftrightarrow>
     length (fst st) = snd st \<and> snd st \<le> MAX_MATCHES \<and> (\<forall>u \<in> set (fst st). well_formed_update u)"

definition passes_length_filters :: "pystr \<Rightarrow> pystr \<Rightarrow> bool" where
  "passes_length_filters clean_source mxliff_source \<longleftrightarrow>
     10 \<le> length clean_source \<and> 10 \<le> length mxliff_source
     \<and> \<bar>int (length clean_source) - int (length mxliff_source)\<bar> \<le> 5"

definition fuzzy_inv ::
  "(pystr \<Rightarrow> pystr \<Rightarrow> rat) \<Rightarrow> pystr \<Rightarrow> (pystr \<times> lookup_entry) list
     \<Rightarrow> lookup_entry option \<times> rat \<Rightarrow> bool" where
  "fuzzy_inv ratio src lk st \<longleftrightarrow>
     (case fst st of
        None \<Rightarrow> snd st = similarity_threshold
      | Some m \<Rightarrow> similarity_threshold < snd st
          \<and> (\<exists>k. (k, m) \<in> set lk \<and> passes_length_filters src k \<and> ratio src k = snd st))"

definition rec0 :: translation_record where
  "rec0 = \<lparr>index = 0, group_id = lit ''g1'', trans_id = lit ''t1'',
     source_text = lit ''Hello world, friend'', target_text = lit ''Hallo'',
     original_target_text = lit ''Hallo'', key = lit ''K1'', speaker = [], speaker_target = [],
     speaker_gender = [], player_class = [], player_gender = [], order_value = 9999,
     note_text = [], is_menulabel = False\<rparr>"


definition data0 :: "display_entry list" where
  "data0 = [\<lparr>is_header = True, item = None\<rparr>, \<lparr>is_header = False, item = Some rec0\<rparr>]"

definition tables0 :: "doc_table list" where
  "tables0 = [\<lparr>table_id = 1,
     table_dataframe = \<lparr>columns = [lit ''Source'', lit ''Comment''],
       df_rows = [\<lambda>col. if col = lit ''Source'' then lit ''Hello world, friend'' else lit ''first note'',
                  \<lambda>col. if col = lit ''Source'' then lit ''Hello world, friends'' else lit ''second note'']\<rparr>,
     has_conversation_column = True, conversation_column = Some (lit ''Conversation'')\<rparr>]"

text \<open>A runtime and a line of \<open>processed_data\<close> for the examples.\<close>

definition runtime0 :: runtime where
  "runtime0 = \<lparr>trans_unit_id = (\<lambda>i. 140000 + 64 * i), group_obj_id = (\<lambda>i. 150000 + 64 * i),
     set_iter = (\<lambda>ks. ks),
     decimal_digit = (\<lambda>c. if 48 \<le> c \<and> c \<le> 57 then Some (c - 48) else None),
     int_max_str_digits = 4300\<rparr>"

definition entry_of :: "pystr \<Rightarrow> pystr \<Rightarrow> pystr \<Rightarrow> pystr \<Rightarrow> display_entry" where
  "entry_of k src tgt orig =
     \<lparr>is_header = False,
      item = Some \<lparr>index = 0, group_id = lit ''g1'', trans_id = lit ''t1'',
        source_text = src, target_text = tgt, original_target_text = orig, key = k,
        speaker = [], speaker_target = [], speaker_gender = [], player_class = [],
        player_gender = [], order_value = 9999, note_text = [], is_menulabel = False\<rparr>\<rparr>"

text \<open>
  The resolution of a trans-unit's key and note in the words of the specification: a
  context block of the trans-unit replaces both defaults of the group, with no merging.
\<close>

definition spec_unit_context :: "pystr \<Rightarrow> pystr \<Rightarrow> pystr \<Rightarrow> pystr \<times> pystr" where
  "spec_unit_context group_key group_note_text trans_unit =
     (case search_context_group trans_unit of
        None \<Rightarrow> (group_key, group_note_text)
      | Some m \<Rightarrow> (or_empty (own_key trans_unit), or_empty (own_note trans_unit)))"

text \<open>A trans-unit whose context block has a key and no note, in a group whose context
  block has both.\<close>

definition tu_c3 :: pystr where
  \<open>tu_c3 = lit (''<trans-unit id="u1"><context-group><context context-type="x-key">UK</context></context-group>'' @
     ''<source>S</source><target>T</target></trans-unit>'')\<close>

definition xml_c3 :: pystr where
  \<open>xml_c3 = lit (''<group id="g1"><context-group><context context-type="x-key">GK</context>'' @
     ''<context context-type="x-key-note">GN</context></context-group>'') @ tu_c3 @ lit ''</group>''\<close>









section \<open>Properties of the text cleaner\<close>

lemma dropWhile_strip [simp]: "dropWhile isspace (strip s) = strip s"
proof -
  define z where "z = dropWhile isspace s"
  have z: "z = [] \<or> \<not> isspace (hd z)"
    unfolding z_def by (metis hd_dropWhile)
  have "rev z = takeWhile isspace (rev z) @ dropWhile isspace (rev z)" by simp
  then have "z = rev (dropWhile isspace (rev z)) @ rev (takeWhile isspace (rev z))"
    by (metis rev_append rev_rev_ident)
  then obtain t where zt: "z = strip s @ t" unfolding strip_def z_def by blast
  show ?thesis
  proof (cases "strip s")
    case Nil
    then show ?thesis by simp
  next
    case (Cons a w)
    with zt z have "\<not> isspace a" by auto
    with Cons show ?thesis by simp
  qed
qed

lemma dropWhile_rev_strip [simp]: "dropWhile isspace (rev (strip s)) = rev (strip s)"
proof -
  have "dropWhile isspace (dropWhile isspace (rev (dropWhile isspace s)))
        = dropWhile isspace (rev (dropWhile isspace s))"
    by (simp add: dropWhile_idem)
  then show ?thesis by (simp add: strip_def)
qed

lemma strip_strip [simp]: "strip (strip s) = strip s"
proof -
  have "strip (strip s) = rev (dropWhile isspace (rev (dropWhile isspace (strip s))))"
    by (simp add: strip_def)
  also have "\<dots> = rev (dropWhile isspace (rev (strip s)))" by simp
  also have "\<dots> = strip s" by simp
  finally show ?thesis .
qed

lemma strip_decomp: "\<exists>a b. s = a @ strip s @ b"
proof -
  define z where "z = dropWhile isspace s"
  have "rev z = takeWhile isspace (rev z) @ dropWhile isspace (rev z)" by simp
  then have "z = rev (dropWhile isspace (rev z)) @ rev (takeWhile isspace (rev z))"
    by (metis rev_append rev_rev_ident)
  then have "z = strip s @ rev (takeWhile isspace (rev z))"
    by (simp add: strip_def z_def)
  moreover have "s = takeWhile isspace s @ z" by (simp add: z_def)
  ultimately show ?thesis by metis
qed

lemma set_strip: "set (strip s) \<subseteq> set s"
proof -
  obtain a b where "s = a @ strip s @ b" using strip_decomp by blast
  then have "set s = set a \<union> set (strip s) \<union> set b" by (metis set_append Un_assoc)
  then show ?thesis by blast
qed

lemma isspace_32 [simp]: "isspace 32"
  by (simp add: isspace_def)

lemma ws_normal_collapse: "ws_normal (collapse_ws s)"
proof (induction s rule: collapse_ws.induct)
  case 1
  show ?case by simp
next
  case (2 c cs)
  show ?case
  proof (cases "isspace c")
    case True
    define r where "r = dropWhile isspace cs"
    have r: "r = [] \<or> \<not> isspace (hd r)" unfolding r_def by (metis hd_dropWhile)
    have ih: "ws_normal (collapse_ws r)" using 2(1) True by (simp add: r_def)
    have "case collapse_ws r of [] \<Rightarrow> True | d # _ \<Rightarrow> \<not> isspace d"
      using r by (cases r) auto
    with ih True show ?thesis by (simp add: r_def)
  next
    case False
    with 2(2) show ?thesis by simp
  qed
qed

lemma collapse_ws_normal: "ws_normal s \<Longrightarrow> collapse_ws s = s"
proof (induction s rule: collapse_ws.induct)
  case 1
  show ?case by simp
next
  case (2 c cs)
  show ?case
  proof (cases "isspace c")
    case True
    with 2(3) have c: "c = 32" and n: "ws_normal cs"
      and h: "case cs of [] \<Rightarrow> True | d # _ \<Rightarrow> \<not> isspace d" by auto
    from h have dw: "dropWhile isspace cs = cs" by (cases cs) auto
    from 2(1) True n dw have "collapse_ws cs = cs" by simp
    with True c dw show ?thesis by simp
  next
    case False
    with 2(2,3) show ?thesis by simp
  qed
qed

lemma ws_normal_append: "ws_normal (a @ b) \<Longrightarrow> ws_normal a \<and> ws_normal b"
proof (induction a)
  case Nil
  then show ?case by simp
next
  case (Cons c a)
  from Cons.prems have n: "ws_normal (a @ b)" by (simp split: if_splits)
  with Cons.IH have ih: "ws_normal a" "ws_normal b" by simp_all
  show ?case
  proof (cases "isspace c")
    case True
    with Cons.prems have c: "c = 32"
      and h: "case a @ b of [] \<Rightarrow> True | d # _ \<Rightarrow> \<not> isspace d" by simp_all
    from h have "case a of [] \<Rightarrow> True | d # _ \<Rightarrow> \<not> isspace d" by (cases a) simp_all
    with True c ih show ?thesis by simp
  next
    case False
    with ih show ?thesis by simp
  qed
qed

lemma ws_normal_strip: "ws_normal s \<Longrightarrow> ws_normal (strip s)"
proof -
  assume n: "ws_normal s"
  obtain a b where s: "s = a @ strip s @ b" using strip_decomp by blast
  from n s have "ws_normal (a @ (strip s @ b))" by metis
  then have "ws_normal (strip s @ b)" using ws_normal_append by blast
  then show ?thesis using ws_normal_append by blast
qed

lemma quote_repl_single: "quote_repl [c] = (if c = 34 then [34] else [32])"
  by (simp add: quote_repl_def quote_dict_def)

lemma sub_quotes_Nil [simp]: "sub_quotes [] = []"
  by (simp add: sub_quotes_def)

lemma sub_quotes_Cons [simp]:
  "sub_quotes (c # cs) = (if in_quote_class c then quote_repl [c] else [c]) @ sub_quotes cs"
  by (simp add: sub_quotes_def)

lemma sub_quotes_fixed: "\<forall>c \<in> set s. in_quote_class c \<longrightarrow> c = 34 \<Longrightarrow> sub_quotes s = s"
  by (induction s) (simp_all add: quote_repl_single)

lemma not_quote_class_32: "\<not> in_quote_class 32"
  by (simp add: in_quote_class_def)

lemma sub_quotes_step:
  assumes "c \<in> set (if in_quote_class d then quote_repl [d] else [d])" and "in_quote_class c"
  shows "c = 34"
proof (cases "in_quote_class d")
  case True
  with assms(1) have "c = 34 \<or> c = 32" by (simp add: quote_repl_single split: if_splits)
  with assms(2) not_quote_class_32 show ?thesis by blast
next
  case False
  with assms show ?thesis by simp
qed

lemma set_sub_quotes: "c \<in> set (sub_quotes s) \<Longrightarrow> in_quote_class c \<Longrightarrow> c = 34"
proof (induction s)
  case Nil
  then show ?case by simp
next
  case (Cons d s)
  from Cons.prems(1)
  have "c \<in> set (if in_quote_class d then quote_repl [d] else [d]) \<union> set (sub_quotes s)"
    by (simp only: sub_quotes_Cons set_append)
  then have "c \<in> set (if in_quote_class d then quote_repl [d] else [d]) \<or> c \<in> set (sub_quotes s)"
    by blast
  then show ?case using sub_quotes_step Cons.IH Cons.prems(2) by blast
qed

lemma set_collapse_ws: "set (collapse_ws s) \<subseteq> insert 32 (set s)"
proof (induction s rule: collapse_ws.induct)
  case 1
  show ?case by simp
next
  case (2 c cs)
  have "set (dropWhile isspace cs) \<subseteq> set cs" by (simp add: set_dropWhileD subsetI)
  with 2 show ?case by (cases "isspace c") auto
qed

lemma clean_result_fixed:
  assumes "r = strip (collapse_ws (sub_quotes t))"
  shows "strip (collapse_ws (sub_quotes (strip r))) = r"
proof -
  have sr: "strip r = r" using assms by simp
  have "\<forall>c \<in> set r. in_quote_class c \<longrightarrow> c = 34"
  proof (intro ballI impI)
    fix c assume c: "c \<in> set r" and q: "in_quote_class c"
    from c assms have "c \<in> set (collapse_ws (sub_quotes t))" using set_strip by blast
    then have "c = 32 \<or> c \<in> set (sub_quotes t)" using set_collapse_ws by blast
    then show "c = 34"
    proof
      assume "c = 32"
      with q show ?thesis by (simp add: in_quote_class_def)
    next
      assume "c \<in> set (sub_quotes t)"
      then show ?thesis using q by (rule set_sub_quotes)
    qed
  qed
  then have sq: "sub_quotes r = r" by (rule sub_quotes_fixed)
  have "ws_normal r" using assms ws_normal_strip ws_normal_collapse by simp
  then have cw: "collapse_ws r = r" by (rule collapse_ws_normal)
  show ?thesis by (simp add: sr sq cw)
qed

text \<open>
  C9.  The text cleaner is idempotent: cleaning an already cleaned string returns it
  unchanged, for every string and for \<open>None\<close>; and the cleaner maps \<open>None\<close> and the
  empty string to the empty string.
\<close>

theorem clean_text_idempotent:
  "clean_text_for_comparison (Some (clean_text_for_comparison text)) = clean_text_for_comparison text
   \<and> clean_text_for_comparison None = []
   \<and> clean_text_for_comparison (Some []) = []"
proof -
  have none: "clean_text_for_comparison None = []"
    by (simp add: clean_text_for_comparison_def)
  have empty: "clean_text_for_comparison (Some []) = []"
    by (simp add: clean_text_for_comparison_def strip_def)
  have idem: "clean_text_for_comparison (Some (clean_text_for_comparison text))
              = clean_text_for_comparison text"
  proof (cases "text")
    case None
    then show ?thesis using none empty by simp
  next
    case (Some t)
    show ?thesis
    proof (cases "strip t = []")
      case True
      with Some have "clean_text_for_comparison text = []"
        by (simp add: clean_text_for_comparison_def)
      then show ?thesis using empty by simp
    next
      case False
      define r where "r = strip (collapse_ws (sub_quotes (strip t)))"
      from Some False have r: "clean_text_for_comparison text = r"
        by (simp add: clean_text_for_comparison_def r_def Let_def)
      have fixed: "strip (collapse_ws (sub_quotes (strip r))) = r"
        using r_def by (rule clean_result_fixed)
      have "clean_text_for_comparison (Some r) = r"
      proof (cases "strip r = []")
        case True
        with fixed have "strip (collapse_ws (sub_quotes [])) = r" by simp
        then have "r = []" by (simp add: strip_def sub_quotes_def)
        then show ?thesis using empty by simp
      next
        case False
        then show ?thesis using fixed by (simp add: clean_text_for_comparison_def Let_def)
      qed
      with r show ?thesis by simp
    qed
  qed
  from idem none empty show ?thesis by simp
qed

section \<open>Properties of the matcher\<close>

lemmas matcher_eval = match_content_with_mxliff_def build_lookup_def lookup_step_def
  get_conversation_tables_def process_table_def source_col_of_def comments_col_of_def
  find_column_def falsy_def process_row_def fuzzy_search_def fuzzy_step_def MAX_MATCHES_def
  similarity_threshold_def preprocess_text_def clean_text_for_comparison_def strip_def lit_def
  isspace_def sub_quotes_def in_quote_class_def py_lower_def Let_def sublist_code prefix_code
  passes_length_filters_def spec_comments_col_def

lemma process_row_cases:
  "process_row ratio lk sc cc row (upds, m) = (upds, m) \<or>
   (\<exists>u. process_row ratio lk sc cc row (upds, m) = (upds @ [u], m + 1) \<and> well_formed_update u)"
  by (auto simp: process_row_def Let_def well_formed_update_def split: option.splits prod.splits)

lemma rows_loop_inv:
  "matcher_inv st \<Longrightarrow> matcher_inv (rows_loop ratio lk sc cc rows st)"
proof (induction rows arbitrary: st)
  case Nil
  then show ?case by simp
next
  case (Cons row rest)
  show ?case
  proof (cases "MAX_MATCHES \<le> snd st")
    case True
    with Cons.prems show ?thesis by simp
  next
    case False
    obtain upds m where st: "st = (upds, m)" by (cases st)
    have "matcher_inv (process_row ratio lk sc cc row st)"
      using process_row_cases [of ratio lk sc cc row upds m] Cons.prems False
      by (auto simp: st matcher_inv_def)
    then have "matcher_inv (rows_loop ratio lk sc cc rest (process_row ratio lk sc cc row st))"
      by (rule Cons.IH)
    with False show ?thesis by simp
  qed
qed

lemma process_table_inv:
  "matcher_inv st \<Longrightarrow> matcher_inv (process_table ratio lk st tbl)"
  by (auto simp: process_table_def Let_def rows_loop_inv split: option.splits)

lemma tables_loop_inv:
  "matcher_inv st \<Longrightarrow> matcher_inv (foldl (process_table ratio lk) st tbls)"
  by (induction tbls arbitrary: st) (simp_all add: process_table_inv)

lemma matcher_inv_init: "matcher_inv ([], 0)"
  by (simp add: matcher_inv_def)

lemma match_result_inv:
  "\<exists>upds m. match_content_with_mxliff ratio tables data = \<lparr>matches = m, updates = upds\<rparr>
     \<and> matcher_inv (upds, m)"
proof -
  define conv where
    "conv = filter (\<lambda>t. 0 < length (df_rows (table_dataframe t))) (get_conversation_tables tables)"
  define st where "st = foldl (process_table ratio (build_lookup data)) ([], 0) conv"
  have inv: "matcher_inv st"
    unfolding st_def using matcher_inv_init by (rule tables_loop_inv)
  obtain upds m where st: "st = (upds, m)" by (cases st)
  show ?thesis
  proof (cases "data = [] \<or> tables = [] \<or> conv = []")
    case True
    then have "match_content_with_mxliff ratio tables data = \<lparr>matches = 0, updates = []\<rparr>"
      by (auto simp: match_content_with_mxliff_def Let_def conv_def)
    with matcher_inv_init show ?thesis by blast
  next
    case False
    then have "match_content_with_mxliff ratio tables data = \<lparr>matches = m, updates = upds\<rparr>"
      using st by (simp add: match_content_with_mxliff_def Let_def conv_def st_def)
    with inv st show ?thesis by blast
  qed
qed

lemma rows_loop_full: "MAX_MATCHES \<le> snd st \<Longrightarrow> rows_loop ratio lk sc cc rows st = st"
  by (cases rows) simp_all

lemma process_table_full: "MAX_MATCHES \<le> snd st \<Longrightarrow> process_table ratio lk st tbl = st"
  by (auto simp: process_table_def Let_def rows_loop_full split: option.splits)

lemma tables_loop_full:
  "MAX_MATCHES \<le> snd st \<Longrightarrow> foldl (process_table ratio lk) st tbls = st"
  by (induction tbls) (simp_all add: process_table_full)

text \<open>
  C6.  For every ratio function, every list of tables and every list of records, the
  updates returned by \<open>match_content_with_mxliff\<close> number at most 500; and once 500
  updates exist, the loop over the tables returns them unchanged, whatever tables and rows
  remain.
\<close>

theorem match_updates_capped:
  "length (updates (match_content_with_mxliff ratio tables mxliff_data)) \<le> 500
   \<and> (\<forall>lk tbls upds. 500 \<le> length upds \<longrightarrow>
         foldl (process_table ratio lk) (upds, length upds) tbls = (upds, length upds))"
proof -
  obtain upds m where r: "match_content_with_mxliff ratio tables mxliff_data
      = \<lparr>matches = m, updates = upds\<rparr>" and i: "matcher_inv (upds, m)"
    using match_result_inv by blast
  from i have "length upds \<le> 500" by (simp add: matcher_inv_def MAX_MATCHES_def)
  with r have a: "length (updates (match_content_with_mxliff ratio tables mxliff_data)) \<le> 500"
    by simp
  have b: "foldl (process_table ratio lk) (upds, length upds) tbls = (upds, length upds)"
    if "500 \<le> length upds" for lk tbls and upds :: "match_update list"
    using that by (intro tables_loop_full) (simp add: MAX_MATCHES_def)
  from a b show ?thesis by blast
qed

lemma exact_neq_fuzzy: "lit ''exact'' \<noteq> lit ''fuzzy''"
  by (simp add: lit_def)

text \<open>
  C10.  In the result of \<open>match_content_with_mxliff\<close>, \<open>matches\<close> is the length of
  \<open>updates\<close>, every update has match type \<open>exact\<close> or \<open>fuzzy\<close>, and an update has
  a \<open>match_ratio\<close> exactly when its match type is \<open>fuzzy\<close>.
\<close>

theorem match_result_shape:
  "matches (match_content_with_mxliff ratio tables mxliff_data)
     = length (updates (match_content_with_mxliff ratio tables mxliff_data))
   \<and> (\<forall>u \<in> set (updates (match_content_with_mxliff ratio tables mxliff_data)).
         (u_match_type u = lit ''exact'' \<or> u_match_type u = lit ''fuzzy'')
         \<and> (u_match_ratio u \<noteq> None \<longleftrightarrow> u_match_type u = lit ''fuzzy''))"
proof -
  obtain upds m where r: "match_content_with_mxliff ratio tables mxliff_data
      = \<lparr>matches = m, updates = upds\<rparr>" and i: "matcher_inv (upds, m)"
    using match_result_inv by blast
  from i have len: "length upds = m" and wf: "\<forall>u \<in> set upds. well_formed_update u"
    by (simp_all add: matcher_inv_def)
  have "(u_match_type u = lit ''exact'' \<or> u_match_type u = lit ''fuzzy'')
         \<and> (u_match_ratio u \<noteq> None \<longleftrightarrow> u_match_type u = lit ''fuzzy'')"
    if "well_formed_update u" for u
    using that exact_neq_fuzzy by (auto simp: well_formed_update_def)
  with wf len r show ?thesis by simp
qed

lemma fuzzy_step_eq:
  "fuzzy_step ratio src (bm, br) (k, m) =
     (if passes_length_filters src k \<and> br < ratio src k then (Some m, ratio src k) else (bm, br))"
  by (auto simp: fuzzy_step_def passes_length_filters_def Let_def)

lemma fuzzy_step_inv:
  assumes "fuzzy_inv ratio src lk st" and "cand \<in> set lk"
  shows "fuzzy_inv ratio src lk (fuzzy_step ratio src st cand)"
proof -
  obtain bm br where st: "st = (bm, br)" by (cases st)
  obtain k m where cand: "cand = (k, m)" by (cases cand)
  have thr: "similarity_threshold \<le> br"
    using assms(1) by (cases bm) (simp_all add: st fuzzy_inv_def)
  show ?thesis
  proof (cases "passes_length_filters src k \<and> br < ratio src k")
    case True
    then have "fuzzy_step ratio src st cand = (Some m, ratio src k)"
      by (simp add: st cand fuzzy_step_eq)
    moreover have "similarity_threshold < ratio src k" using True thr by simp
    ultimately show ?thesis using True assms(2) cand by (auto simp: fuzzy_inv_def)
  next
    case False
    then have "fuzzy_step ratio src st cand = st"
      by (auto simp: st cand fuzzy_step_eq)
    with assms(1) show ?thesis by simp
  qed
qed

lemma fuzzy_foldl_inv:
  "fuzzy_inv ratio src lk st \<Longrightarrow> set xs \<subseteq> set lk
     \<Longrightarrow> fuzzy_inv ratio src lk (foldl (fuzzy_step ratio src) st xs)"
  by (induction xs arbitrary: st) (simp_all add: fuzzy_step_inv)

lemma fuzzy_search_inv: "fuzzy_inv ratio src lk (fuzzy_search ratio src lk)"
  unfolding fuzzy_search_def
  by (rule fuzzy_foldl_inv) (simp_all add: fuzzy_inv_def)

lemma fuzzy_foldl_below:
  "br < R \<Longrightarrow> \<forall>(k', m') \<in> set xs. passes_length_filters src k' \<longrightarrow> ratio src k' < R
     \<Longrightarrow> snd (foldl (fuzzy_step ratio src) (bm, br) xs) < R"
proof (induction xs arbitrary: bm br)
  case Nil
  then show ?case by simp
next
  case (Cons x xs)
  obtain k m where x: "x = (k, m)" by (cases x)
  obtain bm' br' where s: "fuzzy_step ratio src (bm, br) x = (bm', br')"
    by (cases "fuzzy_step ratio src (bm, br) x")
  have "br' < R" using s Cons.prems by (auto simp: x fuzzy_step_eq split: if_splits)
  moreover have "\<forall>(k', m') \<in> set xs. passes_length_filters src k' \<longrightarrow> ratio src k' < R"
    using Cons.prems(2) by simp
  ultimately have "snd (foldl (fuzzy_step ratio src) (bm', br') xs) < R" by (rule Cons.IH)
  with s show ?case by simp
qed

lemma fuzzy_foldl_keep:
  "\<forall>(k', m') \<in> set xs. passes_length_filters src k' \<longrightarrow> ratio src k' \<le> br
     \<Longrightarrow> foldl (fuzzy_step ratio src) (bm, br) xs = (bm, br)"
proof (induction xs)
  case Nil
  then show ?case by simp
next
  case (Cons x xs)
  obtain k m where x: "x = (k, m)" by (cases x)
  have "fuzzy_step ratio src (bm, br) x = (bm, br)"
    using Cons.prems by (auto simp: x fuzzy_step_eq)
  with Cons show ?case by simp
qed

lemma fuzzy_search_best:
  assumes "passes_length_filters src k" and "similarity_threshold < ratio src k"
    and "\<forall>(k', m') \<in> set pre. passes_length_filters src k' \<longrightarrow> ratio src k' < ratio src k"
    and "\<forall>(k', m') \<in> set post. passes_length_filters src k' \<longrightarrow> ratio src k' \<le> ratio src k"
  shows "fuzzy_search ratio src (pre @ (k, m) # post) = (Some m, ratio src k)"
proof -
  obtain bm br where p: "foldl (fuzzy_step ratio src) (None, similarity_threshold) pre = (bm, br)"
    by (cases "foldl (fuzzy_step ratio src) (None, similarity_threshold) pre")
  have "snd (foldl (fuzzy_step ratio src) (None, similarity_threshold) pre) < ratio src k"
    using assms(2,3) by (rule fuzzy_foldl_below)
  with p have "br < ratio src k" by simp
  with assms(1) have "fuzzy_step ratio src (bm, br) (k, m) = (Some m, ratio src k)"
    by (simp add: fuzzy_step_eq)
  moreover have "foldl (fuzzy_step ratio src) (Some m, ratio src k) post = (Some m, ratio src k)"
    using assms(4) by (rule fuzzy_foldl_keep)
  ultimately show ?thesis using p by (simp add: fuzzy_search_def)
qed

lemma fuzzy_search_none:
  assumes "\<forall>(k, m) \<in> set lk. passes_length_filters src k \<longrightarrow> ratio src k \<le> similarity_threshold"
  shows "fuzzy_search ratio src lk = (None, similarity_threshold)"
  unfolding fuzzy_search_def using assms by (rule fuzzy_foldl_keep)

lemma process_row_fuzzy:
  assumes "strip (row sc) \<noteq> []" and "strip (row cc) \<noteq> []"
    and "map_of lk (preprocess_text (strip (row sc))) = None"
    and "fuzzy_search ratio (preprocess_text (strip (row sc))) lk = (Some m, r)"
  shows "process_row ratio lk sc cc row (upds, n) =
           (upds @ [\<lparr>u_key = lk_key m, u_source_text = lk_original_text m,
                      u_comment = strip (row cc), u_match_type = lit ''fuzzy'',
                      u_match_ratio = Some r\<rparr>], n + 1)"
  using assms by (simp add: process_row_def Let_def)

text \<open>
  C5.  The fuzzy search compares with the threshold 0.8 strictly.  A selected candidate
  has passed the length filters with a ratio above the threshold.  If no candidate that
  passes the filters has a ratio above the threshold (so also when a ratio is exactly the
  float 0.8), nothing is selected.  A candidate that passes the filters with a ratio above
  the threshold (the float 0.81, say), above the ratio of every earlier candidate and not
  below the ratio of any later one, is selected.  The fuzzy update that the row emits carries
  the winning ratio as \<open>match_ratio\<close>.
\<close>

theorem fuzzy_threshold_strict:
  "(fuzzy_search ratio src lk = (Some m, r) \<longrightarrow>
      similarity_threshold < r
      \<and> (\<exists>k. (k, m) \<in> set lk \<and> passes_length_filters src k \<and> ratio src k = r))
   \<and> ((\<forall>(k, e) \<in> set lk. passes_length_filters src k \<longrightarrow> ratio src k \<le> similarity_threshold) \<longrightarrow>
      fuzzy_search ratio src lk = (None, similarity_threshold))
   \<and> (passes_length_filters src k \<and> similarity_threshold < ratio src k
      \<and> (\<forall>(k', e) \<in> set pre. passes_length_filters src k' \<longrightarrow> ratio src k' < ratio src k)
      \<and> (\<forall>(k', e) \<in> set post. passes_length_filters src k' \<longrightarrow> ratio src k' \<le> ratio src k) \<longrightarrow>
      fuzzy_search ratio src (pre @ (k, m) # post) = (Some m, ratio src k))
   \<and> (strip (row sc) \<noteq> [] \<and> strip (row cc) \<noteq> []
      \<and> map_of lk (preprocess_text (strip (row sc))) = None
      \<and> fuzzy_search ratio (preprocess_text (strip (row sc))) lk = (Some m, r) \<longrightarrow>
      process_row ratio lk sc cc row (upds, n) =
        (upds @ [\<lparr>u_key = lk_key m, u_source_text = lk_original_text m,
                   u_comment = strip (row cc), u_match_type = lit ''fuzzy'',
                   u_match_ratio = Some r\<rparr>], n + 1))"
proof -
  have a: "similarity_threshold < r
      \<and> (\<exists>k. (k, m) \<in> set lk \<and> passes_length_filters src k \<and> ratio src k = r)"
    if "fuzzy_search ratio src lk = (Some m, r)"
    using fuzzy_search_inv [of ratio src lk] that by (simp add: fuzzy_inv_def)
  show ?thesis
    using a fuzzy_search_none [of lk src ratio] fuzzy_search_best [of src k ratio pre post m]
      process_row_fuzzy [of row sc cc lk ratio m r upds n]
    by blast
qed

lemma find_column_nonempty: "find_column (c # w) cols = Some col \<Longrightarrow> col \<noteq> []"
proof -
  assume "find_column (c # w) cols = Some col"
  then have "sublist (c # w) (py_lower col)"
    by (auto simp: find_column_def find_Some_iff)
  then show "col \<noteq> []" by (auto simp: py_lower_def)
qed

text \<open>
  C4, as amended.  The comment column of a table is the first column whose lowered name
  contains \<open>comment\<close>, whether or not a column containing \<open>coteam\<close> exists; a table with
  no source column or no comment column is skipped, and otherwise the rows are scanned with
  the two columns found.
\<close>

theorem comments_col_first:
  "(comments_col_of df = Some c \<longleftrightarrow>
      (\<exists>i < length (columns df). columns df ! i = c
          \<and> sublist (lit ''comment'') (py_lower c)
          \<and> (\<forall>j < i. \<not> sublist (lit ''comment'') (py_lower (columns df ! j)))))
   \<and> (source_col_of (table_dataframe tbl) = None \<or> comments_col_of (table_dataframe tbl) = None \<longrightarrow>
        process_table ratio lk st tbl = st)
   \<and> (source_col_of (table_dataframe tbl) = Some sc \<and> comments_col_of (table_dataframe tbl) = Some cc \<longrightarrow>
        process_table ratio lk st tbl = rows_loop ratio lk sc cc (df_rows (table_dataframe tbl)) st)"
proof -
  have a: "comments_col_of df = Some c \<longleftrightarrow>
      (\<exists>i < length (columns df). columns df ! i = c
          \<and> sublist (lit ''comment'') (py_lower c)
          \<and> (\<forall>j < i. \<not> sublist (lit ''comment'') (py_lower (columns df ! j))))"
    unfolding comments_col_of_def find_column_def find_Some_iff by blast
  have b: "process_table ratio lk st tbl = st"
    if "source_col_of (table_dataframe tbl) = None \<or> comments_col_of (table_dataframe tbl) = None"
    using that by (auto simp: process_table_def Let_def falsy_def)
  have c: "process_table ratio lk st tbl = rows_loop ratio lk sc cc (df_rows (table_dataframe tbl)) st"
    if s: "source_col_of (table_dataframe tbl) = Some sc"
      and k: "comments_col_of (table_dataframe tbl) = Some cc"
  proof -
    have "sc \<noteq> []" using s unfolding source_col_of_def lit_def
      by (simp only: list.map) (rule find_column_nonempty)
    moreover have "cc \<noteq> []" using k unfolding comments_col_of_def lit_def
      by (simp only: list.map) (rule find_column_nonempty)
    ultimately show ?thesis using s k by (simp add: process_table_def Let_def falsy_def)
  qed
  from a b c show ?thesis by blast
qed

text \<open>
  C4 as stated fails: with the columns \<open>Source\<close>, \<open>Comment\<close>, \<open>COTeam Comment\<close> the
  matcher takes \<open>Comment\<close>, where the preference for \<open>coteam\<close> would take
  \<open>COTeam Comment\<close>.
\<close>

theorem comments_col_coteam_counterexample:
  "comments_col_of \<lparr>columns = [lit ''Source'', lit ''Comment'', lit ''COTeam Comment''], df_rows = []\<rparr>
     = Some (lit ''Comment'')
   \<and> spec_comments_col [lit ''Source'', lit ''Comment'', lit ''COTeam Comment'']
     = Some (lit ''COTeam Comment'')
   \<and> comments_col_of \<lparr>columns = [lit ''Source'', lit ''Comment'', lit ''COTeam Comment''], df_rows = []\<rparr>
     \<noteq> spec_comments_col [lit ''Source'', lit ''Comment'', lit ''COTeam Comment'']"
  by (simp add: matcher_eval)

text \<open>
  The amended C4 at a table with the columns \<open>Source\<close>, \<open>Comment\<close>, \<open>COTeam Comment\<close>,
  and at a table with no comment column.
\<close>

theorem comments_col_first_witness:
  "comments_col_of \<lparr>columns = [lit ''Source'', lit ''Comment'', lit ''COTeam Comment''], df_rows = []\<rparr>
     = Some (lit ''Comment'')
   \<and> comments_col_of \<lparr>columns = [lit ''Source'', lit ''Notes''], df_rows = [\<lambda>col. lit ''x'']\<rparr> = None
   \<and> process_table (\<lambda>a b. 1) [] ([], 0)
        \<lparr>table_id = 1,
         table_dataframe = \<lparr>columns = [lit ''Source'', lit ''Notes''], df_rows = [\<lambda>col. lit ''x'']\<rparr>,
         has_conversation_column = True, conversation_column = None\<rparr> = ([], 0)"
proof -
  let ?df = "\<lparr>columns = [lit ''Source'', lit ''Comment'', lit ''COTeam Comment''], df_rows = []\<rparr>"
  let ?tbl = "\<lparr>table_id = 1,
         table_dataframe = \<lparr>columns = [lit ''Source'', lit ''Notes''], df_rows = [\<lambda>col. lit ''x'']\<rparr>,
         has_conversation_column = True, conversation_column = None\<rparr>"
  have "1 < length (columns ?df) \<and> columns ?df ! 1 = lit ''Comment''
          \<and> sublist (lit ''comment'') (py_lower (lit ''Comment''))
          \<and> (\<forall>j < 1. \<not> sublist (lit ''comment'') (py_lower (columns ?df ! j)))"
    by (simp add: matcher_eval)
  then have h1: "\<exists>i < length (columns ?df). columns ?df ! i = lit ''Comment''
          \<and> sublist (lit ''comment'') (py_lower (lit ''Comment''))
          \<and> (\<forall>j < i. \<not> sublist (lit ''comment'') (py_lower (columns ?df ! j)))"
    by (rule exI [of _ 1])
  have h2: "comments_col_of (table_dataframe ?tbl) = None"
    by (simp add: matcher_eval)
  from comments_col_first [of ?df "lit ''Comment''" ?tbl "\<lambda>a b. 1" "[]" "([], 0)"]
  have a: "comments_col_of ?df = Some (lit ''Comment'') \<longleftrightarrow>
      (\<exists>i < length (columns ?df). columns ?df ! i = lit ''Comment''
          \<and> sublist (lit ''comment'') (py_lower (lit ''Comment''))
          \<and> (\<forall>j < i. \<not> sublist (lit ''comment'') (py_lower (columns ?df ! j))))"
    and b: "source_col_of (table_dataframe ?tbl) = None \<or> comments_col_of (table_dataframe ?tbl) = None
        \<longrightarrow> process_table (\<lambda>a b. 1) [] ([], 0) ?tbl = ([], 0)"
    by blast+
  from a h1 have c1: "comments_col_of ?df = Some (lit ''Comment'')" by blast
  from b h2 have c2: "process_table (\<lambda>a b. 1) [] ([], 0) ?tbl = ([], 0)" by blast
  from h2 have c3: "comments_col_of \<lparr>columns = [lit ''Source'', lit ''Notes''], df_rows = [\<lambda>col. lit ''x'']\<rparr> = None"
    by simp
  from c1 c2 c3 show ?thesis by blast
qed

lemma match_example:
  "match_content_with_mxliff (\<lambda>a b. 9 / 10) tables0 data0 =
  \<lparr>matches = 2,
    updates =
      [\<lparr>u_key = lit ''K1'', u_source_text = lit ''Hello world, friend'',
          u_comment = lit ''first note'', u_match_type = lit ''exact'', u_match_ratio = None\<rparr>,
       \<lparr>u_key = lit ''K1'', u_source_text = lit ''Hello world, friend'',
          u_comment = lit ''second note'', u_match_type = lit ''fuzzy'',
          u_match_ratio = Some (9 / 10)\<rparr>]\<rparr>"
  by (simp add: matcher_eval tables0_def data0_def rec0_def)

text \<open>
  C6 at an example with one record and a table of two rows, and at a state holding 500
  updates.
\<close>

theorem match_updates_capped_witness:
  "length (updates (match_content_with_mxliff (\<lambda>a b. 9 / 10) tables0 data0)) \<le> 500
   \<and> 500 \<le> length (replicate 500 (\<lparr>u_key = [], u_source_text = [], u_comment = [],
                                     u_match_type = lit ''exact'', u_match_ratio = None\<rparr>))
   \<and> foldl (process_table (\<lambda>a b. 9 / 10) (build_lookup data0))
        (replicate 500 (\<lparr>u_key = [], u_source_text = [], u_comment = [],
                          u_match_type = lit ''exact'', u_match_ratio = None\<rparr>),
         length (replicate 500 (\<lparr>u_key = [], u_source_text = [], u_comment = [],
                          u_match_type = lit ''exact'', u_match_ratio = None\<rparr>))) tables0
       = (replicate 500 (\<lparr>u_key = [], u_source_text = [], u_comment = [],
                          u_match_type = lit ''exact'', u_match_ratio = None\<rparr>),
          length (replicate 500 (\<lparr>u_key = [], u_source_text = [], u_comment = [],
                          u_match_type = lit ''exact'', u_match_ratio = None\<rparr>)))"
proof -
  let ?u = "\<lparr>u_key = [], u_source_text = [], u_comment = [],
             u_match_type = lit ''exact'', u_match_ratio = None\<rparr>"
  have h: "500 \<le> length (replicate 500 ?u)" by simp
  from match_updates_capped [of "\<lambda>a b. 9 / 10" tables0 data0]
  have a: "length (updates (match_content_with_mxliff (\<lambda>a b. 9 / 10) tables0 data0)) \<le> 500"
    and b: "\<forall>lk tbls upds. 500 \<le> length upds \<longrightarrow>
         foldl (process_table (\<lambda>a b. 9 / 10) lk) (upds, length upds) tbls = (upds, length upds)"
    by blast+
  from b h have "foldl (process_table (\<lambda>a b. 9 / 10) (build_lookup data0))
      (replicate 500 ?u, length (replicate 500 ?u)) tables0
      = (replicate 500 ?u, length (replicate 500 ?u))"
    by blast
  with a h show ?thesis by blast
qed

text \<open>
  C10 at the example: one exact and one fuzzy update.
\<close>

theorem match_result_shape_witness:
  "\<lparr>u_key = lit ''K1'', u_source_text = lit ''Hello world, friend'',
     u_comment = lit ''second note'', u_match_type = lit ''fuzzy'',
     u_match_ratio = Some (9 / 10)\<rparr>
     \<in> set (updates (match_content_with_mxliff (\<lambda>a b. 9 / 10) tables0 data0))
   \<and> matches (match_content_with_mxliff (\<lambda>a b. 9 / 10) tables0 data0) = 2
   \<and> length (updates (match_content_with_mxliff (\<lambda>a b. 9 / 10) tables0 data0)) = 2
   \<and> u_match_ratio \<lparr>u_key = lit ''K1'', u_source_text = lit ''Hello world, friend'',
         u_comment = lit ''second note'', u_match_type = lit ''fuzzy'',
         u_match_ratio = Some (9 / 10)\<rparr> \<noteq> None"
proof -
  let ?u = "\<lparr>u_key = lit ''K1'', u_source_text = lit ''Hello world, friend'',
     u_comment = lit ''second note'', u_match_type = lit ''fuzzy'',
     u_match_ratio = Some (9 / 10)\<rparr>"
  have m: "?u \<in> set (updates (match_content_with_mxliff (\<lambda>a b. 9 / 10) tables0 data0))"
    by (simp add: match_example)
  have n: "matches (match_content_with_mxliff (\<lambda>a b. 9 / 10) tables0 data0) = 2"
    by (simp add: match_example)
  have t: "u_match_type ?u = lit ''fuzzy''" by simp
  from match_result_shape [of "\<lambda>a b. 9 / 10" tables0 data0]
  have len: "matches (match_content_with_mxliff (\<lambda>a b. 9 / 10) tables0 data0)
      = length (updates (match_content_with_mxliff (\<lambda>a b. 9 / 10) tables0 data0))"
    and all: "\<forall>u \<in> set (updates (match_content_with_mxliff (\<lambda>a b. 9 / 10) tables0 data0)).
         (u_match_type u = lit ''exact'' \<or> u_match_type u = lit ''fuzzy'')
         \<and> (u_match_ratio u \<noteq> None \<longleftrightarrow> u_match_type u = lit ''fuzzy'')"
    by blast+
  from all m have "u_match_ratio ?u \<noteq> None \<longleftrightarrow> u_match_type ?u = lit ''fuzzy''" by blast
  with t have r: "u_match_ratio ?u \<noteq> None" by blast
  from len n have l: "length (updates (match_content_with_mxliff (\<lambda>a b. 9 / 10) tables0 data0)) = 2"
    by simp
  from m n l r show ?thesis by blast
qed

text \<open>
  C5 at one candidate: with the ratio 0.81 it is selected and the row emits the ratio; with
  the ratio exactly 0.8 it is not.
\<close>

theorem fuzzy_threshold_strict_witness:
  "fuzzy_search (\<lambda>a b. 1823957849085051 / 2251799813685248) (lit ''Hello world, friends'')
      [(lit ''Hello world, friend'', \<lparr>lk_key = lit ''K1'', lk_original_text = lit ''Hello world, friend''\<rparr>)]
     = (Some \<lparr>lk_key = lit ''K1'', lk_original_text = lit ''Hello world, friend''\<rparr>,
        1823957849085051 / 2251799813685248)
   \<and> similarity_threshold < 1823957849085051 / 2251799813685248
   \<and> fuzzy_search (\<lambda>a b. similarity_threshold) (lit ''Hello world, friends'')
      [(lit ''Hello world, friend'', \<lparr>lk_key = lit ''K1'', lk_original_text = lit ''Hello world, friend''\<rparr>)]
     = (None, similarity_threshold)
   \<and> process_row (\<lambda>a b. 1823957849085051 / 2251799813685248)
        [(lit ''Hello world, friend'', \<lparr>lk_key = lit ''K1'', lk_original_text = lit ''Hello world, friend''\<rparr>)]
        (lit ''Source'') (lit ''Comment'')
        (\<lambda>col. if col = lit ''Source'' then lit ''Hello world, friends'' else lit ''second note'')
        ([], 0)
     = ([\<lparr>u_key = lit ''K1'', u_source_text = lit ''Hello world, friend'',
          u_comment = lit ''second note'', u_match_type = lit ''fuzzy'',
          u_match_ratio = Some (1823957849085051 / 2251799813685248)\<rparr>], 1)"
proof -
  let ?r = "\<lambda>(a::pystr) (b::pystr). (1823957849085051 / 2251799813685248 :: rat)"
  let ?t = "\<lambda>(a::pystr) (b::pystr). similarity_threshold"
  let ?src = "lit ''Hello world, friends''"
  let ?k = "lit ''Hello world, friend''"
  let ?e = "\<lparr>lk_key = lit ''K1'', lk_original_text = lit ''Hello world, friend''\<rparr>"
  let ?row = "\<lambda>col. if col = lit ''Source'' then lit ''Hello world, friends'' else lit ''second note''"
  have pass: "passes_length_filters ?src ?k"
    by (simp add: passes_length_filters_def lit_def)
  have thr: "similarity_threshold < ?r ?src ?k"
    by (simp add: similarity_threshold_def)
  have pre: "preprocess_text (strip (?row (lit ''Source''))) = ?src"
    by (simp add: matcher_eval)
  have s1: "strip (?row (lit ''Source'')) \<noteq> []" by (simp add: matcher_eval)
  have s2: "strip (?row (lit ''Comment'')) = lit ''second note''" by (simp add: matcher_eval)
  have nomatch: "map_of [(?k, ?e)] ?src = None" by (simp add: lit_def)
  have best: "fuzzy_search ?r ?src ([] @ (?k, ?e) # []) = (Some ?e, ?r ?src ?k)"
    using fuzzy_threshold_strict [of ?r ?src "[(?k, ?e)]" ?e "?r ?src ?k" ?k "[]" "[]" ?row
        "lit ''Source''" "lit ''Comment''" "[]" 0] pass thr
    by simp
  have none: "fuzzy_search ?t ?src [(?k, ?e)] = (None, similarity_threshold)"
    using fuzzy_threshold_strict [of ?t ?src "[(?k, ?e)]" ?e "similarity_threshold" ?k "[]" "[]" ?row
        "lit ''Source''" "lit ''Comment''" "[]" 0]
    by simp
  have h3: "map_of [(?k, ?e)] (preprocess_text (strip (?row (lit ''Source'')))) = None"
    by (simp only: pre nomatch)
  have h4: "fuzzy_search ?r (preprocess_text (strip (?row (lit ''Source'')))) [(?k, ?e)]
      = (Some ?e, 1823957849085051 / 2251799813685248)"
    using best by (simp only: pre append_Nil)
  have s2': "strip (?row (lit ''Comment'')) \<noteq> []" by (simp only: s2) (simp add: lit_def)
  from fuzzy_threshold_strict [of ?r ?src "[(?k, ?e)]" ?e "1823957849085051 / 2251799813685248"
        ?k "[]" "[]" ?row "lit ''Source''" "lit ''Comment''" "[]" 0] s1 s2' h3 h4
  have "process_row ?r [(?k, ?e)] (lit ''Source'') (lit ''Comment'') ?row ([], 0)
     = ([] @ [\<lparr>u_key = lk_key ?e, u_source_text = lk_original_text ?e,
                u_comment = strip (?row (lit ''Comment'')), u_match_type = lit ''fuzzy'',
                u_match_ratio = Some (1823957849085051 / 2251799813685248)\<rparr>], 0 + 1)"
    by blast
  then have row: "process_row ?r [(?k, ?e)] (lit ''Source'') (lit ''Comment'') ?row ([], 0)
     = ([\<lparr>u_key = lit ''K1'', u_source_text = lit ''Hello world, friend'',
          u_comment = lit ''second note'', u_match_type = lit ''fuzzy'',
          u_match_ratio = Some (1823957849085051 / 2251799813685248)\<rparr>], 1)"
    by (simp only: s2) simp
  from best thr none row show ?thesis by simp
qed

section \<open>Properties of the extraction\<close>

lemmas xml_eval = lit_def isspace_def strip_def prefix_code sublist_code suffix_to_prefix
  match_to_gt_def match_open_def match_open_attr_def match_elem_def match_quoted_attr_def
  quoted_at_def match_tag_attr_def trans_unit_open_def trans_unit_close_def group_open_def
  group_close_def target_close_def search_context_group_def search_key_def own_key_def
  search_target_def retarget_def search_note_def own_note_def context_of_def capture_at_def
  match_label_def search_label_def not_newline_def not_comma_newline_def match_order_def
  py_int_def extract_order_value_def inner_text_def id_or_def or_empty_def process_unit_def
  process_group_def parse_xml_def py_lower_def runtime0_def Let_def findall_elem.simps

lemma context_of_fields:
  "fst (context_of dk dn s) = (case own_key s of Some k \<Rightarrow> k | None \<Rightarrow> dk)
   \<and> snd (context_of dk dn s) = (case own_note s of Some t \<Rightarrow> t | None \<Rightarrow> dn)"
  by (simp add: context_of_def own_key_def own_note_def split: option.splits prod.splits)

lemma process_unit_context:
  "process_unit rt gid gk gn idx n tu = Inr r \<Longrightarrow>
     key r = fst (context_of gk gn tu) \<and> note_text r = snd (context_of gk gn tu)"
  by (auto simp: process_unit_def Let_def split: sum.splits)

text \<open>
  C3, as amended.  In the record of a trans-unit, the key is the key of the trans-unit's own
  context block when that block holds a key context, and the key of the group otherwise; the
  note is resolved in the same way, on its own.  (A context block of the trans-unit that
  holds only one of the two leaves the other at the group's value.)
\<close>

theorem unit_context_per_field:
  "process_unit rt gid group_key group_note_text trans_idx n trans_unit = Inr r \<Longrightarrow>
     key r = (case own_key trans_unit of Some k \<Rightarrow> k | None \<Rightarrow> group_key)
     \<and> note_text r = (case own_note trans_unit of Some t \<Rightarrow> t | None \<Rightarrow> group_note_text)"
  using process_unit_context [of rt gid group_key group_note_text trans_idx n trans_unit r]
    context_of_fields [of group_key group_note_text trans_unit]
  by simp

lemma tu_c3_eval:
  "process_unit runtime0 (lit ''g1'') (lit ''GK'') (lit ''GN'') 0 0 tu_c3 =
     Inr \<lparr>index = 0, group_id = lit ''g1'', trans_id = lit ''u1'', source_text = lit ''S'',
          target_text = lit ''T'', original_target_text = lit ''T'', key = lit ''UK'',
          speaker = [], speaker_target = [], speaker_gender = [], player_class = [],
          player_gender = [], order_value = 9999, note_text = lit ''GN'', is_menulabel = False\<rparr>"
  by (simp add: xml_eval tu_c3_def)

lemma tu_c3_own: "own_key tu_c3 = Some (lit ''UK'') \<and> own_note tu_c3 = None \<and> search_context_group tu_c3 \<noteq> None"
  by (simp add: xml_eval tu_c3_def)


lemma xml_c3_eval:
  "map key (parse_xml runtime0 xml_c3) = [lit ''UK'']
   \<and> map note_text (parse_xml runtime0 xml_c3) = [lit ''GN'']"
  by (simp add: xml_eval xml_c3_def tu_c3_def)

lemma spec_c3_eval: "spec_unit_context (lit ''GK'') (lit ''GN'') tu_c3 = (lit ''UK'', [])"
  using tu_c3_own by (auto simp: spec_unit_context_def or_empty_def)

text \<open>
  C3 as stated fails: the trans-unit of \<open>xml_c3\<close> has a context block of its own, with a
  key and no note; its record has the group's note \<open>GN\<close>, where the replacement of both
  defaults would leave the note empty.
\<close>

theorem unit_context_counterexample:
  "search_context_group tu_c3 \<noteq> None
   \<and> map key (parse_xml runtime0 xml_c3) = [lit ''UK'']
   \<and> map note_text (parse_xml runtime0 xml_c3) = [lit ''GN'']
   \<and> spec_unit_context (lit ''GK'') (lit ''GN'') tu_c3 = (lit ''UK'', [])"
  using tu_c3_own xml_c3_eval spec_c3_eval by blast

text \<open>
  The amended C3 at the trans-unit of \<open>xml_c3\<close>, with the key \<open>GK\<close> and the note \<open>GN\<close>
  of its group.
\<close>

theorem unit_context_per_field_witness:
  "process_unit runtime0 (lit ''g1'') (lit ''GK'') (lit ''GN'') 0 0 tu_c3 =
     Inr \<lparr>index = 0, group_id = lit ''g1'', trans_id = lit ''u1'', source_text = lit ''S'',
          target_text = lit ''T'', original_target_text = lit ''T'', key = lit ''UK'',
          speaker = [], speaker_target = [], speaker_gender = [], player_class = [],
          player_gender = [], order_value = 9999, note_text = lit ''GN'', is_menulabel = False\<rparr>
   \<and> own_key tu_c3 = Some (lit ''UK'') \<and> own_note tu_c3 = None
   \<and> key \<lparr>index = 0, group_id = lit ''g1'', trans_id = lit ''u1'', source_text = lit ''S'',
          target_text = lit ''T'', original_target_text = lit ''T'', key = lit ''UK'',
          speaker = [], speaker_target = [], speaker_gender = [], player_class = [],
          player_gender = [], order_value = 9999, note_text = lit ''GN'', is_menulabel = False\<rparr>
       = (case own_key tu_c3 of Some k \<Rightarrow> k | None \<Rightarrow> lit ''GK'')
   \<and> note_text \<lparr>index = 0, group_id = lit ''g1'', trans_id = lit ''u1'', source_text = lit ''S'',
          target_text = lit ''T'', original_target_text = lit ''T'', key = lit ''UK'',
          speaker = [], speaker_target = [], speaker_gender = [], player_class = [],
          player_gender = [], order_value = 9999, note_text = lit ''GN'', is_menulabel = False\<rparr>
       = (case own_note tu_c3 of Some t \<Rightarrow> t | None \<Rightarrow> lit ''GN'')"
  using unit_context_per_field [OF tu_c3_eval] tu_c3_eval tu_c3_own by blast

section \<open>Properties of the patcher\<close>

lemma collect_edit_unchanged:
  "\<forall>it. item d = Some it \<longrightarrow> target_text it = original_target_text it \<Longrightarrow> collect_edit edited d = edited"
  by (auto simp: collect_edit_def split: option.splits)

lemma edited_unchanged:
  "\<forall>d \<in> set ds. \<forall>it. item d = Some it \<longrightarrow> target_text it = original_target_text it
     \<Longrightarrow> foldl collect_edit edited ds = edited"
  by (induction ds arbitrary: edited) (simp_all add: collect_edit_unchanged)

text \<open>
  C1.  If no record has changed (the target text of every record equals its original target
  text), \<open>update_xml_content\<close> applied to a non-empty XML text and a non-empty list of
  records returns the XML text itself.
\<close>

theorem patch_no_change_identity:
  assumes "original_xml_content \<noteq> []" and "processed_data \<noteq> []"
    and "\<forall>d \<in> set processed_data. \<forall>it. item d = Some it \<longrightarrow> target_text it = original_target_text it"
  shows "update_xml_content rt original_xml_content processed_data = Inr original_xml_content"
proof -
  from assms(3) have "edited_translations processed_data = []"
    unfolding edited_translations_def by (rule edited_unchanged)
  with assms(1,2) show ?thesis by (simp add: update_xml_content_def)
qed

text \<open>
  C1 at a text and a header followed by one unchanged record.
\<close>

theorem patch_no_change_identity_witness:
  "update_xml_content runtime0 (lit ''<xliff>text</xliff>'')
     [\<lparr>is_header = True, item = None\<rparr>, entry_of (lit ''K1'') (lit ''Hello'') (lit ''Hallo'') (lit ''Hallo'')]
   = Inr (lit ''<xliff>text</xliff>'')"
proof -
  let ?data = "[\<lparr>is_header = True, item = None\<rparr>,
                entry_of (lit ''K1'') (lit ''Hello'') (lit ''Hallo'') (lit ''Hallo'')]"
  have a: "lit ''<xliff>text</xliff>'' \<noteq> []" by (simp add: lit_def)
  have b: "?data \<noteq> []" by simp
  have c: "\<forall>d \<in> set ?data. \<forall>it. item d = Some it \<longrightarrow> target_text it = original_target_text it"
    by (simp add: entry_of_def)
  from patch_no_change_identity [OF a b c] show ?thesis .
qed




































end
